theory Spec2Isabelle
  imports Main "HOL-Library.Word" "HOL-Library.Sublist"
begin

unbundle bit_operations_syntax

chapter \<open>SEV launch and page-state-change handling of target/i386/sev.c\<close>

text \<open>
  The functions of sev.c are given as functions of HOL. What a C function reads from its
  surroundings (the platform, KVM, the memory API, files) is a parameter; what it changes is
  part of its result. Where sev.c ends the process, or reads outside an array, the result
  says so. Definitions whose name starts with \<open>spec_\<close> are not taken from sev.c: they
  restate the specification, and the lemmas relate the code to them. Definitions whose name
  starts with \<open>example_\<close> are concrete inputs.
\<close>

section \<open>Page state change: data\<close>

text \<open>
  \<^verbatim>\<open>struct psc_hdr\<close>, \<^verbatim>\<open>struct psc_entry\<close> (a 64-bit bit-field) and
  \<^verbatim>\<open>struct snp_psc_desc\<close>. Every field has the width the declaration gives it.
  The array \<^verbatim>\<open>entries[VMGEXIT_PSC_MAX_ENTRY]\<close> is a list; a well-formed descriptor
  has exactly \<open>VMGEXIT_PSC_MAX_ENTRY\<close> of them (the shared buffer is 0x7f0 = 8 + 253 * 8
  bytes and the structures are packed).
\<close>

record psc_hdr =
  cur_entry :: "16 word"
  end_entry :: "16 word"
  hdr_reserved :: "32 word"

record psc_entry =
  cur_page :: "12 word"
  gfn :: "40 word"
  operation :: "4 word"
  pagesize :: "1 word"
  entry_reserved :: "7 word"

definition VMGEXIT_PSC_MAX_ENTRY :: nat where
  "VMGEXIT_PSC_MAX_ENTRY = 253"

record snp_psc_desc =
  hdr :: psc_hdr
  entries :: "psc_entry list"

definition GHCB_SHARED_BUF_SIZE :: "64 word" where
  "GHCB_SHARED_BUF_SIZE = 0x7f0"

definition PSC_ERROR_GENERIC :: "64 word" where
  "PSC_ERROR_GENERIC = push_bit 32 0x100"

text \<open>\<^verbatim>\<open>ENOENT\<close> comes from the C library's errno.h; only its being non-zero matters.\<close>

definition ENOENT :: int where
  "ENOENT = 2"

text \<open>
  The four out-parameters of \<^verbatim>\<open>next_contig_gpa_range\<close>. \<^verbatim>\<open>gfn_count\<close> is a C
  \<^verbatim>\<open>int\<close>; it is kept as an integer, and \<open>next_contig_gpa_range_count_bound\<close> below
  shows that it never leaves the range of a 32-bit int, also when multiplied by 0x1000.
\<close>

record psc_range =
  entries_processed :: "16 word"
  gfn_base :: "64 word"
  gfn_count :: int
  range_to_private :: bool

text \<open>
  An access to \<^verbatim>\<open>desc->entries[i]\<close> with \<open>i\<close> outside the array is undefined
  behaviour in C. The model stops there and reports the index.
\<close>

datatype psc_fault = EntryOutOfRange nat

text \<open>
  One call \<^verbatim>\<open>kvm_convert_memory(start, size, to_private)\<close>.
\<close>

type_synonym conv_call = "64 word \<times> 64 word \<times> bool"

text \<open>
  The collaborators of \<^verbatim>\<open>kvm_handle_vmgexit_psc\<close>. \<open>as_map_len env n len\<close> is the length
  that the \<open>n\<close>-th call of \<^verbatim>\<open>address_space_map\<close> (counted from 0) reports as mapped when
  asked for \<open>len\<close> bytes of the shared buffer; \<open>convert_memory env calls c\<close> is the value
  \<^verbatim>\<open>kvm_convert_memory\<close> returns for the call \<open>c\<close> made after the calls \<open>calls\<close>.
\<close>

record psc_env =
  as_map_len :: "nat \<Rightarrow> 64 word \<Rightarrow> 64 word"
  convert_memory :: "conv_call list \<Rightarrow> conv_call \<Rightarrow> int"

text \<open>
  The state at the end of the \<^verbatim>\<open>while\<close> loop of the handler: the handler's copy of the
  descriptor, the result field, the conversion calls made so far, and the out-of-range
  access that ended the loop, if there was one.
\<close>

record psc_outcome =
  out_fault :: "psc_fault option"
  out_desc :: snp_psc_desc
  out_psc_ret :: "64 word"
  out_calls :: "conv_call list"

text \<open>
  The result of the handler: its return value, \<^verbatim>\<open>*psc_ret\<close>, the content of the guest's
  shared buffer on return, and the conversion calls made. With \<open>res_fault\<close> set the
  behaviour of the C code is undefined from the faulting access on, and the other fields say
  what had happened before it.
\<close>

record psc_result =
  res_ret :: int
  res_psc_ret :: "64 word"
  res_shared_buf :: snp_psc_desc
  res_calls :: "conv_call list"
  res_fault :: "psc_fault option"

section \<open>Page state change: the code\<close>

text \<open>
  The values \<^verbatim>\<open>next_contig_gpa_range\<close> gives its out-parameters on entry.
\<close>

definition range_init :: psc_range where
  "range_init = \<lparr>entries_processed = 0, gfn_base = 0, gfn_count = 0, range_to_private = False\<rparr>"

text \<open>
  The \<^verbatim>\<open>for\<close> loop of \<^verbatim>\<open>next_contig_gpa_range\<close>, from index \<open>i\<close> to
  \<open>e = hdr.end_entry\<close> inclusive. The result is the return value, the entries (with the
  \<^verbatim>\<open>cur_page\<close> fields the loop wrote) and the out-parameters.
\<close>

function next_contig_loop ::
  "nat \<Rightarrow> nat \<Rightarrow> psc_entry list \<Rightarrow> psc_range \<Rightarrow> psc_fault + (int \<times> psc_entry list \<times> psc_range)"
where
  "next_contig_loop i e es r =
    (if i \<le> e then
       (if i < VMGEXIT_PSC_MAX_ENTRY \<and> i < length es then
          (let entry = es ! i;
               to_private = (operation entry = 1);
               page_count = (if pagesize entry \<noteq> 0 then 512 else 1 :: int);
               r1 = (if gfn_count r = 0
                     then r\<lparr>range_to_private := to_private, gfn_base := ucast (gfn entry)\<rparr>
                     else r)
           in if ucast (gfn entry) \<noteq> gfn_base r1 + word_of_int (gfn_count r1)
                 \<or> to_private \<noteq> range_to_private r1
              then Inr (0, es, r1)
              else next_contig_loop (i + 1) e
                     (es[i := entry\<lparr>cur_page := word_of_int page_count\<rparr>])
                     (r1\<lparr>gfn_count := gfn_count r1 + page_count,
                         entries_processed := entries_processed r1 + 1\<rparr>))
        else Inl (EntryOutOfRange i))
     else Inr (if gfn_count r \<noteq> 0 then 0 else - ENOENT, es, r))"
  by pat_completeness auto
termination
  by (relation "measure (\<lambda>(i, e, es, r). Suc e - i)") (simp, simp only: in_measure prod.case)

definition next_contig_gpa_range ::
  "snp_psc_desc \<Rightarrow> psc_fault + (int \<times> snp_psc_desc \<times> psc_range)"
where
  "next_contig_gpa_range desc =
    (case next_contig_loop (unat (cur_entry (hdr desc))) (unat (end_entry (hdr desc)))
            (entries desc) range_init of
       Inl f \<Rightarrow> Inl f
     | Inr (rc, es, r) \<Rightarrow> Inr (rc, desc\<lparr>entries := es\<rparr>, r))"

declare next_contig_loop.simps [simp del]

text \<open>
  The two cursors of the header, as numbers.
\<close>

definition psc_cur :: "snp_psc_desc \<Rightarrow> nat" where
  "psc_cur d = unat (cur_entry (hdr d))"

definition psc_end :: "snp_psc_desc \<Rightarrow> nat" where
  "psc_end d = unat (end_entry (hdr d))"

section \<open>Page state change: contiguous runs\<close>

text \<open>
  The specification's words for what the extractor finds: the longest run of entries,
  from the cursor on, in which every entry starts at the guest frame where the entry before
  it ends (an entry covers 512 frames when its page size bit is set and 1 otherwise) and goes
  in the same direction (operation 1 is to-private, every other operation counts as
  to-shared, as in the code). \<open>spec_first_run\<close> is that run for a list of entries,
  \<open>spec_runs\<close> the division of a list into such runs, \<open>spec_conversion\<close> the
  conversion call for a run.
\<close>

definition entry_pages :: "psc_entry \<Rightarrow> nat" where
  "entry_pages e = (if pagesize e \<noteq> 0 then 512 else 1)"

definition entry_to_private :: "psc_entry \<Rightarrow> bool" where
  "entry_to_private e = (operation e = 1)"

definition spec_adjacent :: "psc_entry \<Rightarrow> psc_entry \<Rightarrow> bool" where
  "spec_adjacent a b \<longleftrightarrow>
     unat (gfn b) = unat (gfn a) + entry_pages a \<and> entry_to_private b = entry_to_private a"

fun spec_run_from :: "psc_entry \<Rightarrow> psc_entry list \<Rightarrow> psc_entry list" where
  "spec_run_from prev [] = []"
| "spec_run_from prev (x # xs) = (if spec_adjacent prev x then x # spec_run_from x xs else [])"

definition spec_first_run :: "psc_entry list \<Rightarrow> psc_entry list" where
  "spec_first_run es = (case es of [] \<Rightarrow> [] | x # xs \<Rightarrow> x # spec_run_from x xs)"

fun spec_runs :: "psc_entry list \<Rightarrow> psc_entry list list" where
  "spec_runs [] = []"
| "spec_runs [x] = [[x]]"
| "spec_runs (x # y # zs) =
     (if spec_adjacent x y
      then (case spec_runs (y # zs) of r # rs \<Rightarrow> (x # r) # rs | [] \<Rightarrow> [[x]])
      else [x] # spec_runs (y # zs))"

definition spec_conversion :: "psc_entry list \<Rightarrow> conv_call" where
  "spec_conversion run =
     (ucast (gfn (hd run)) * 0x1000, of_nat (sum_list (map entry_pages run)) * 0x1000,
      entry_to_private (hd run))"

text \<open>
  The progress the extractor records: \<^verbatim>\<open>cur_page\<close> of an entry of the run is set to the
  number of pages of the entry; \<open>mark_range i k\<close> does so for the \<open>k\<close> entries from
  index \<open>i\<close>.
\<close>

definition mark_done :: "psc_entry \<Rightarrow> psc_entry" where
  "mark_done e = e\<lparr>cur_page := of_nat (entry_pages e)\<rparr>"

definition mark_range :: "nat \<Rightarrow> nat \<Rightarrow> psc_entry list \<Rightarrow> psc_entry list" where
  "mark_range i k es = take i es @ map mark_done (take k (drop i es)) @ drop (i + k) es"

text \<open>
  The first index at which the loop of the extractor stops whatever the entries are: one
  past the end entry, or the end of the array if that comes first.
\<close>

definition entry_limit :: "nat \<Rightarrow> psc_entry list \<Rightarrow> nat" where
  "entry_limit e es = min (Suc e) (min VMGEXIT_PSC_MAX_ENTRY (length es))"




definition spec_psc_buf :: "snp_psc_desc \<Rightarrow> nat \<Rightarrow> nat \<Rightarrow> snp_psc_desc" where
  "spec_psc_buf d marked passed =
     d\<lparr>entries := mark_range (psc_cur d) marked (entries d),
       hdr := (hdr d)\<lparr>cur_entry := cur_entry (hdr d) + of_nat passed\<rparr>\<rparr>"

text \<open>
  The number of runs converted before the first conversion call that fails (all of them
  when none fails), the calls being made in order after the calls \<open>calls\<close>.
\<close>

fun spec_ok_runs ::
  "(conv_call list \<Rightarrow> conv_call \<Rightarrow> int) \<Rightarrow> conv_call list \<Rightarrow> psc_entry list list \<Rightarrow> nat"
where
  "spec_ok_runs conv calls [] = 0"
| "spec_ok_runs conv calls (run # runs) =
     (if conv calls (spec_conversion run) \<noteq> 0 then 0
      else Suc (spec_ok_runs conv (calls @ [spec_conversion run]) runs))"

section \<open>Page state change: what the extractor computes\<close>

lemma adj_word_nat:
  fixes g :: "40 word" and b :: "64 word"
  assumes "unat b + c < 2 ^ 64"
  shows "(ucast g \<noteq> b + word_of_int (int c)) \<longleftrightarrow> unat g \<noteq> unat b + c"
proof -
  have "unat (b + word_of_int (int c)) = unat b + c"
    using assms by (simp add: unat_word_ariths unat_of_nat)
  moreover have "unat (ucast g :: 64 word) = unat g"
    proof -
    have "unat g < 2 ^ 40" using unsigned_less [of g] by simp
    then have "unat g < 2 ^ 64" by simp
    then show ?thesis by (simp add: unsigned_ucast_eq take_bit_nat_eq_self)
  qed
  ultimately show ?thesis
    by (metis word_unat_eq_iff)
qed

lemma mark_range_0 [simp]: "mark_range i 0 es = es"
  by (simp add: mark_range_def)

lemma mark_range_Suc:
  assumes "i < length es"
  shows "mark_range (Suc i) k (es[i := mark_done (es ! i)]) = mark_range i (Suc k) es"
proof -
  have "take (Suc i) (es[i := mark_done (es ! i)]) = take i es @ [mark_done (es ! i)]"
    using assms by (simp add: take_Suc_conv_app_nth)
  moreover have "take (Suc k) (drop i es) = es ! i # take k (drop (Suc i) es)"
    using assms by (simp add: Cons_nth_drop_Suc [symmetric])
  ultimately show ?thesis
    by (simp add: mark_range_def)
qed

lemma entry_pages_bound: "entry_pages x \<le> 512" "0 < entry_pages x"
  by (simp_all add: entry_pages_def)

lemma gfn_bound: "unat (gfn x) < 2 ^ 40"
  using unsigned_less [of "gfn x"] by simp

lemma next_contig_loop_past_end:
  assumes "\<not> i \<le> e"
  shows "next_contig_loop i e es r = Inr (if gfn_count r \<noteq> 0 then 0 else - ENOENT, es, r)"
  by (subst next_contig_loop.simps, subst if_not_P [OF assms], rule refl)

lemma next_contig_loop_out_of_range:
  assumes "i \<le> e" and "\<not> (i < VMGEXIT_PSC_MAX_ENTRY \<and> i < length es)"
  shows "next_contig_loop i e es r = Inl (EntryOutOfRange i)"
  by (subst next_contig_loop.simps, subst if_P [OF assms(1)], subst if_not_P [OF assms(2)], rule refl)

lemma next_contig_loop_mid:
  assumes "gfn_count r = int c" and "0 < c"
    and "unat (gfn_base r) + c = unat (gfn prev) + entry_pages prev"
    and "range_to_private r = entry_to_private prev"
    and "i \<le> entry_limit e es"
  shows "next_contig_loop i e es r =
     (let run = spec_run_from prev (take (entry_limit e es - i) (drop i es)); k = length run in
        if i + k < entry_limit e es \<or> entry_limit e es = Suc e
        then Inr (0, mark_range i k es,
                  r\<lparr>gfn_count := int (c + sum_list (map entry_pages run)),
                     entries_processed := entries_processed r + of_nat k\<rparr>)
        else Inl (EntryOutOfRange (entry_limit e es)))"
  using assms
proof (induction "entry_limit e es - i" arbitrary: i es r c prev)
  case 0
  then have i: "i = entry_limit e es" by simp
  show ?case
  proof (cases "entry_limit e es = Suc e")
    case True
    with i 0 show ?thesis
      by (simp add: next_contig_loop_past_end)
  next
    case False
    with i have "i \<le> e" "\<not> (i < VMGEXIT_PSC_MAX_ENTRY \<and> i < length es)"
      by (auto simp: entry_limit_def min_def split: if_splits)
    with i False show ?thesis
      by (simp add: next_contig_loop_out_of_range)
  qed
next
  case (Suc n)
  let ?lim = "entry_limit e es"
  let ?x = "es ! i"
  from Suc.hyps(2) have lt: "i < ?lim" by simp
  then have ie: "i \<le> e" and ib: "i < VMGEXIT_PSC_MAX_ENTRY" and il: "i < length es"
    by (simp_all add: entry_limit_def)
  have seg: "take (?lim - i) (drop i es) = ?x # take (?lim - Suc i) (drop (Suc i) es)"
    using lt il by (metis Cons_nth_drop_Suc Suc_diff_Suc take_Suc_Cons)
  have nowrap: "unat (gfn_base r) + c < 2 ^ 64"
    using Suc.prems(3) gfn_bound [of prev] entry_pages_bound(1) [of prev] by simp
  have chk: "(ucast (gfn ?x) \<noteq> gfn_base r + word_of_int (gfn_count r) \<or>
              (operation ?x = 1) \<noteq> range_to_private r) \<longleftrightarrow> \<not> spec_adjacent prev ?x"
    using adj_word_nat [OF nowrap, of "gfn ?x"] Suc.prems(1,3,4)
    by (auto simp: spec_adjacent_def entry_to_private_def)
  show ?case
  proof (cases "spec_adjacent prev ?x")
    case False
    with chk ie ib il lt Suc.prems(1,2) show ?thesis
      by (subst next_contig_loop.simps) (simp add: seg Let_def)
  next
    case True
    let ?es' = "es[i := mark_done ?x]"
    let ?r' = "r\<lparr>gfn_count := gfn_count r + int (entry_pages ?x),
                 entries_processed := entries_processed r + 1\<rparr>"
    have lim': "entry_limit e ?es' = ?lim" by (simp add: entry_limit_def)
    have step: "next_contig_loop i e es r = next_contig_loop (Suc i) e ?es' ?r'"
      using chk True ie ib il Suc.prems(1,2)
      by (subst next_contig_loop.simps) (simp add: Let_def mark_done_def entry_pages_def)
    have IH: "next_contig_loop (Suc i) e ?es' ?r' =
       (let run = spec_run_from ?x (take (entry_limit e ?es' - Suc i) (drop (Suc i) ?es')); k = length run in
        if Suc i + k < entry_limit e ?es' \<or> entry_limit e ?es' = Suc e
        then Inr (0, mark_range (Suc i) k ?es',
                  ?r'\<lparr>gfn_count := int (c + entry_pages ?x + sum_list (map entry_pages run)),
                     entries_processed := entries_processed ?r' + of_nat k\<rparr>)
        else Inl (EntryOutOfRange (entry_limit e ?es')))"
    proof (rule Suc.hyps(1))
      show "n = entry_limit e ?es' - Suc i" using Suc.hyps(2) lim' by simp
      show "gfn_count ?r' = int (c + entry_pages ?x)" using Suc.prems(1) by simp
      show "0 < c + entry_pages ?x" using Suc.prems(2) by simp
      show "unat (gfn_base ?r') + (c + entry_pages ?x) = unat (gfn ?x) + entry_pages ?x"
        using True Suc.prems(3) by (simp add: spec_adjacent_def)
      show "range_to_private ?r' = entry_to_private ?x"
        using True Suc.prems(4) by (simp add: spec_adjacent_def)
      show "Suc i \<le> entry_limit e ?es'" using lt lim' by simp
    qed
    show ?thesis
      unfolding step IH lim'
      using True il by (simp add: seg Let_def mark_range_Suc add.assoc)
  qed
qed

lemma next_contig_loop_first:
  assumes "i < entry_limit e es"
  shows "next_contig_loop i e es range_init =
     (let run = spec_first_run (take (entry_limit e es - i) (drop i es)); k = length run in
        if i + k < entry_limit e es \<or> entry_limit e es = Suc e
        then Inr (0, mark_range i k es,
                  \<lparr>entries_processed = of_nat k, gfn_base = ucast (gfn (es ! i)),
                   gfn_count = int (sum_list (map entry_pages run)),
                   range_to_private = entry_to_private (es ! i)\<rparr>)
        else Inl (EntryOutOfRange (entry_limit e es)))"
proof -
  let ?x = "es ! i"
  let ?lim = "entry_limit e es"
  let ?es' = "es[i := mark_done ?x]"
  let ?r' = "\<lparr>entries_processed = 1, gfn_base = ucast (gfn ?x),
              gfn_count = int (entry_pages ?x), range_to_private = entry_to_private ?x\<rparr>"
  from assms have ie: "i \<le> e" and ib: "i < VMGEXIT_PSC_MAX_ENTRY" and il: "i < length es"
    by (simp_all add: entry_limit_def)
  have seg: "take (?lim - i) (drop i es) = ?x # take (?lim - Suc i) (drop (Suc i) es)"
    using assms il by (metis Cons_nth_drop_Suc Suc_diff_Suc take_Suc_Cons)
  have lim': "entry_limit e ?es' = ?lim" by (simp add: entry_limit_def)
  have step: "next_contig_loop i e es range_init = next_contig_loop (Suc i) e ?es' ?r'"
    using ie ib il
    by (subst next_contig_loop.simps)
       (simp add: Let_def range_init_def mark_done_def entry_pages_def entry_to_private_def)
  have mid: "next_contig_loop (Suc i) e ?es' ?r' =
     (let run = spec_run_from ?x (take (entry_limit e ?es' - Suc i) (drop (Suc i) ?es')); k = length run in
        if Suc i + k < entry_limit e ?es' \<or> entry_limit e ?es' = Suc e
        then Inr (0, mark_range (Suc i) k ?es',
                  ?r'\<lparr>gfn_count := int (entry_pages ?x + sum_list (map entry_pages run)),
                     entries_processed := entries_processed ?r' + of_nat k\<rparr>)
        else Inl (EntryOutOfRange (entry_limit e ?es')))"
  proof (rule next_contig_loop_mid)
    show "gfn_count ?r' = int (entry_pages ?x)" by simp
    show "0 < entry_pages ?x" by (rule entry_pages_bound)
    show "unat (gfn_base ?r') + entry_pages ?x = unat (gfn ?x) + entry_pages ?x"
      using gfn_bound [of ?x] by (simp add: unsigned_ucast_eq take_bit_nat_eq_self)
    show "range_to_private ?r' = entry_to_private ?x" by simp
    show "Suc i \<le> entry_limit e ?es'" using assms lim' by simp
  qed
  show ?thesis
    unfolding step mid lim'
    using il by (simp add: seg Let_def mark_range_Suc spec_first_run_def)
qed

text \<open>
  The extractor, on every descriptor: with the cursor past the end entry it returns
  \<open>-ENOENT\<close>; with the cursor outside the array it reads out of range at once; otherwise
  it processes the longest contiguous run from the cursor, and reads out of range if that
  run reaches the end of the array before the end entry.
\<close>

lemma next_contig_gpa_range_eq:
  "next_contig_gpa_range d =
    (let lim = entry_limit (psc_end d) (entries d) in
     if psc_end d < psc_cur d then Inr (- ENOENT, d, range_init)
     else if lim \<le> psc_cur d then Inl (EntryOutOfRange (psc_cur d))
     else
       let run = spec_first_run (take (lim - psc_cur d) (drop (psc_cur d) (entries d)));
           k = length run
       in if psc_cur d + k < lim \<or> lim = Suc (psc_end d)
          then Inr (0, d\<lparr>entries := mark_range (psc_cur d) k (entries d)\<rparr>,
                    \<lparr>entries_processed = of_nat k,
                     gfn_base = ucast (gfn (entries d ! psc_cur d)),
                     gfn_count = int (sum_list (map entry_pages run)),
                     range_to_private = entry_to_private (entries d ! psc_cur d)\<rparr>)
          else Inl (EntryOutOfRange lim))"
proof -
  consider (past) "psc_end d < psc_cur d"
    | (oob) "psc_cur d \<le> psc_end d" "entry_limit (psc_end d) (entries d) \<le> psc_cur d"
    | (run) "psc_cur d \<le> psc_end d" "psc_cur d < entry_limit (psc_end d) (entries d)"
    by linarith
  then show ?thesis
  proof cases
    case past
    then show ?thesis
      by (simp add: next_contig_gpa_range_def psc_cur_def psc_end_def
          next_contig_loop_past_end range_init_def)
  next
    case oob
    then have "\<not> (psc_cur d < VMGEXIT_PSC_MAX_ENTRY \<and> psc_cur d < length (entries d))"
      by (auto simp: entry_limit_def)
    with oob show ?thesis
      using next_contig_loop_out_of_range [of "psc_cur d" "psc_end d" "entries d" range_init]
      by (simp add: next_contig_gpa_range_def psc_cur_def psc_end_def)
  next
    case run
    then show ?thesis
      using next_contig_loop_first [of "psc_cur d" "psc_end d" "entries d"]
      by (simp add: next_contig_gpa_range_def psc_cur_def psc_end_def Let_def)
  qed
qed

lemma length_spec_run_from: "length (spec_run_from p xs) \<le> length xs"
  by (induction xs arbitrary: p) auto

lemma length_spec_first_run: "length (spec_first_run xs) \<le> length xs"
  using length_spec_run_from by (cases xs) (auto simp: spec_first_run_def)

lemma spec_first_run_nonempty: "xs \<noteq> [] \<Longrightarrow> 0 < length (spec_first_run xs)"
  by (cases xs) (auto simp: spec_first_run_def)

lemma entry_limit_le: "entry_limit e es \<le> length es" "entry_limit e es \<le> VMGEXIT_PSC_MAX_ENTRY"
  "entry_limit e es \<le> Suc e"
  by (simp_all add: entry_limit_def)

lemma length_segment: "length (take (entry_limit e es - i) (drop i es)) = entry_limit e es - i"
  using entry_limit_le(1) [of e es] by simp

lemma next_contig_gpa_range_progress:
  assumes "next_contig_gpa_range d = Inr (0, d1, r)"
  shows "hdr d1 = hdr d"
    and "0 < unat (entries_processed r)"
    and "psc_cur d + unat (entries_processed r) \<le> Suc (psc_end d)"
    and "psc_cur d + unat (entries_processed r) \<le> VMGEXIT_PSC_MAX_ENTRY"
proof -
  let ?lim = "entry_limit (psc_end d) (entries d)"
  let ?run = "spec_first_run (take (?lim - psc_cur d) (drop (psc_cur d) (entries d)))"
  from assms have lt: "psc_cur d < ?lim"
    and d1: "d1 = d\<lparr>entries := mark_range (psc_cur d) (length ?run) (entries d)\<rparr>"
    and r: "entries_processed r = of_nat (length ?run)"
    by (auto simp: next_contig_gpa_range_eq Let_def ENOENT_def split: if_splits)
  from d1 show "hdr d1 = hdr d" by simp
  have len: "length ?run \<le> ?lim - psc_cur d"
    using length_spec_first_run [of "take (?lim - psc_cur d) (drop (psc_cur d) (entries d))"]
    by (simp only: length_segment)
  have pos: "0 < length ?run"
    using lt length_segment [of "psc_end d" "entries d" "psc_cur d"]
    by (intro spec_first_run_nonempty) (metis length_0_conv zero_less_diff less_numeral_extra(3))
  have small: "length ?run \<le> 253"
    using len entry_limit_le(2) [of "psc_end d" "entries d"] by (simp add: VMGEXIT_PSC_MAX_ENTRY_def)
  then have un: "unat (entries_processed r) = length ?run"
    by (simp add: r unat_of_nat)
  from pos un show "0 < unat (entries_processed r)" by simp
  show "psc_cur d + unat (entries_processed r) \<le> Suc (psc_end d)"
    using len lt un entry_limit_le(3) [of "psc_end d" "entries d"] by linarith
  show "psc_cur d + unat (entries_processed r) \<le> VMGEXIT_PSC_MAX_ENTRY"
    using len lt un entry_limit_le(2) [of "psc_end d" "entries d"] by linarith
qed

text \<open>
  The count of pages of a run stays far below the largest C \<^verbatim>\<open>int\<close>, also after the
  multiplication by the page size.
\<close>

lemma sum_entry_pages_le: "sum_list (map entry_pages xs) \<le> 512 * length xs"
proof (induction xs)
  case Nil
  then show ?case by simp
next
  case (Cons x xs)
  with entry_pages_bound(1) [of x] show ?case by simp
qed

lemma next_contig_gpa_range_count_bound:
  assumes "next_contig_gpa_range d = Inr (rc, d1, r)"
  shows "0 \<le> gfn_count r" and "gfn_count r * 0x1000 < 2 ^ 31"
proof -
  let ?lim = "entry_limit (psc_end d) (entries d)"
  let ?run = "spec_first_run (take (?lim - psc_cur d) (drop (psc_cur d) (entries d)))"
  from assms have r: "gfn_count r = 0 \<or> gfn_count r = int (sum_list (map entry_pages ?run))"
    by (auto simp: next_contig_gpa_range_eq Let_def range_init_def split: if_splits)
  have "length ?run \<le> ?lim - psc_cur d"
    using length_spec_first_run [of "take (?lim - psc_cur d) (drop (psc_cur d) (entries d))"]
    by (simp only: length_segment)
  then have "length ?run \<le> 253"
    using entry_limit_le(2) [of "psc_end d" "entries d"] by (simp add: VMGEXIT_PSC_MAX_ENTRY_def)
  with sum_entry_pages_le [of ?run] have "sum_list (map entry_pages ?run) \<le> 512 * 253"
    by linarith
  with r show "0 \<le> gfn_count r" and "gfn_count r * 0x1000 < 2 ^ 31"
    by auto
qed

section \<open>Page state change: the handler\<close>

text \<open>
  The \<^verbatim>\<open>while\<close> loop of \<^verbatim>\<open>kvm_handle_vmgexit_psc\<close>. It ends when the extractor
  returns non-zero, when a conversion fails, or at an out-of-range access of the extractor.
  Its termination rests on \<open>next_contig_gpa_range_progress\<close>: a run that is reported has
  at least one entry and ends inside the array, so the 16-bit cursor grows without wrapping.
\<close>

function psc_loop ::
  "(conv_call list \<Rightarrow> conv_call \<Rightarrow> int) \<Rightarrow> snp_psc_desc \<Rightarrow> 64 word \<Rightarrow> conv_call list \<Rightarrow> psc_outcome"
where
  "psc_loop conv desc psc_ret calls =
    (case next_contig_gpa_range desc of
       Inl f \<Rightarrow> \<lparr>out_fault = Some f, out_desc = desc, out_psc_ret = psc_ret, out_calls = calls\<rparr>
     | Inr (rc, desc1, r) \<Rightarrow>
         if rc \<noteq> 0
         then \<lparr>out_fault = None, out_desc = desc1, out_psc_ret = psc_ret, out_calls = calls\<rparr>
         else
           (let c = (gfn_base r * 0x1000, word_of_int (gfn_count r * 0x1000), range_to_private r);
                ret = conv calls c
            in if ret \<noteq> 0
               then \<lparr>out_fault = None, out_desc = desc1, out_psc_ret = push_bit 32 0x100,
                     out_calls = calls @ [c]\<rparr>
               else psc_loop conv
                      (desc1\<lparr>hdr := (hdr desc1)\<lparr>cur_entry :=
                                cur_entry (hdr desc1) + entries_processed r\<rparr>\<rparr>)
                      psc_ret (calls @ [c])))"
  by pat_completeness auto
termination
proof (relation "measure (\<lambda>(conv, desc, psc_ret, calls). Suc (psc_end desc) - psc_cur desc)")
  show "wf (measure (\<lambda>(conv, desc, psc_ret, calls). Suc (psc_end desc) - psc_cur desc))"
    by simp
next
  fix conv :: "conv_call list \<Rightarrow> conv_call \<Rightarrow> int"
    and desc desc1 :: snp_psc_desc and psc_ret :: "64 word" and calls :: "conv_call list"
    and x2 x y rc r c ret
  assume a: "next_contig_gpa_range desc = Inr x2" "(rc, y) = x2" "(desc1, r) = y" "\<not> rc \<noteq> 0"
  then have nc: "next_contig_gpa_range desc = Inr (0, desc1, r)" by auto
  let ?d' = "desc1\<lparr>hdr := (hdr desc1)\<lparr>cur_entry := cur_entry (hdr desc1) + entries_processed r\<rparr>\<rparr>"
  note p = next_contig_gpa_range_progress [OF nc]
  have "unat (cur_entry (hdr desc) + entries_processed r) = psc_cur desc + unat (entries_processed r)"
    using p(4) by (simp add: unat_word_ariths psc_cur_def VMGEXIT_PSC_MAX_ENTRY_def)
  then have "psc_cur ?d' = psc_cur desc + unat (entries_processed r)" "psc_end ?d' = psc_end desc"
    using p(1) by (simp_all add: psc_cur_def psc_end_def)
  then show "((conv, ?d', psc_ret, calls @ [c]), (conv, desc, psc_ret, calls))
       \<in> measure (\<lambda>(conv, desc, psc_ret, calls). Suc (psc_end desc) - psc_cur desc)"
    using p(2,3) by (simp only: in_measure prod.case)
qed

declare psc_loop.simps [simp del]

text \<open>
  \<^verbatim>\<open>kvm_handle_vmgexit_psc\<close>. The shared buffer has the size of one descriptor, so the
  copy out of the mapped buffer and the copy back are the descriptor itself; \<open>guest_buf\<close>
  is the content of the guest's buffer on entry. The second mapping is asked for the length
  the first one reported.
\<close>

definition kvm_handle_vmgexit_psc :: "psc_env \<Rightarrow> snp_psc_desc \<Rightarrow> psc_result" where
  "kvm_handle_vmgexit_psc env guest_buf =
    (let len = as_map_len env 0 GHCB_SHARED_BUF_SIZE in
     if len < GHCB_SHARED_BUF_SIZE
     then \<lparr>res_ret = 0, res_psc_ret = PSC_ERROR_GENERIC, res_shared_buf = guest_buf,
           res_calls = [], res_fault = None\<rparr>
     else
       (let out = psc_loop (convert_memory env) guest_buf 0 [] in
        case out_fault out of
          Some f \<Rightarrow> \<lparr>res_ret = 0, res_psc_ret = out_psc_ret out, res_shared_buf = guest_buf,
                     res_calls = out_calls out, res_fault = Some f\<rparr>
        | None \<Rightarrow>
            (let len2 = as_map_len env 1 len in
             if len2 < GHCB_SHARED_BUF_SIZE
             then \<lparr>res_ret = 0, res_psc_ret = PSC_ERROR_GENERIC, res_shared_buf = guest_buf,
                   res_calls = out_calls out, res_fault = None\<rparr>
             else \<lparr>res_ret = 0, res_psc_ret = out_psc_ret out, res_shared_buf = out_desc out,
                   res_calls = out_calls out, res_fault = None\<rparr>)))"






lemma length_mark_range [simp]: "length (mark_range i k es) = length es"
  by (simp add: mark_range_def)







lemma spec_ok_runs_le: "spec_ok_runs conv calls runs \<le> length runs"
  by (induction runs arbitrary: calls) auto


lemma spec_psc_buf_0 [simp]: "spec_psc_buf d 0 0 = d"
  by (simp add: spec_psc_buf_def)







lemma spec_ok_runs_first_failure:
  "(\<forall>i < spec_ok_runs conv calls runs.
       conv (calls @ map spec_conversion (take i runs)) (spec_conversion (runs ! i)) = 0)
   \<and> (spec_ok_runs conv calls runs < length runs \<longrightarrow>
        conv (calls @ map spec_conversion (take (spec_ok_runs conv calls runs) runs))
          (spec_conversion (runs ! spec_ok_runs conv calls runs)) \<noteq> 0)"
proof (induction runs arbitrary: calls)
  case Nil
  then show ?case by simp
next
  case (Cons run runs)
  show ?case
  proof (cases "conv calls (spec_conversion run) = 0")
    case False
    then show ?thesis by simp
  next
    case True
    note IH = Cons.IH [of "calls @ [spec_conversion run]"]
    have "conv (calls @ map spec_conversion (take i (run # runs)))
            (spec_conversion ((run # runs) ! i)) = 0"
      if "i < Suc (spec_ok_runs conv (calls @ [spec_conversion run]) runs)" for i
    proof (cases i)
      case 0
      with True show ?thesis by simp
    next
      case (Suc j)
      with that IH show ?thesis by simp
    qed
    with True IH show ?thesis by simp
  qed
qed

text \<open>
  \<open>spec_runs\<close> cuts a list of entries into its longest contiguous runs: the runs put
  together give the list back, within a run every entry is adjacent to the one before it,
  and a run ends only where the next entry is not adjacent to its last one.
\<close>

lemma spec_runs_nonempty: "r \<in> set (spec_runs xs) \<Longrightarrow> r \<noteq> []"
  by (induction xs arbitrary: r rule: spec_runs.induct) (auto split: list.splits if_splits)

lemma spec_runs_Nil_iff [simp]: "spec_runs xs = [] \<longleftrightarrow> xs = []"
  by (induction xs rule: spec_runs.induct) (auto split: list.splits)

lemma hd_hd_spec_runs: "xs \<noteq> [] \<Longrightarrow> hd (hd (spec_runs xs)) = hd xs"
  by (induction xs rule: spec_runs.induct) (auto split: list.splits)

lemma spec_runs_contiguous:
  "r \<in> set (spec_runs xs) \<Longrightarrow> successively spec_adjacent r"
proof (induction xs arbitrary: r rule: spec_runs.induct)
  case 1
  then show ?case by simp
next
  case (2 x)
  then show ?case by simp
next
  case (3 x y zs)
  show ?case
  proof (cases "spec_adjacent x y")
    case False
    with 3 show ?thesis by auto
  next
    case True
    obtain r' rs where rs: "spec_runs (y # zs) = r' # rs"
      by (cases "spec_runs (y # zs)") auto
    with hd_hd_spec_runs [of "y # zs"] have hd: "hd r' = y" by simp
    have ne: "r' \<noteq> []" using spec_runs_nonempty [of r' "y # zs"] rs by simp
    from 3 True rs have "r = x # r' \<or> r \<in> set rs" by auto
    then show ?thesis
    proof
      assume r: "r = x # r'"
      have "successively spec_adjacent r'" using "3.IH"(1) [OF True, of r'] rs by simp
      with True hd ne show ?thesis
        unfolding r by (cases r') auto
    next
      assume "r \<in> set rs"
      then show ?thesis using "3.IH"(1) [OF True, of r] rs by simp
    qed
  qed
qed

lemma spec_runs_maximal:
  "successively (\<lambda>r s. \<not> spec_adjacent (last r) (hd s)) (spec_runs xs)"
proof (induction xs rule: spec_runs.induct)
  case 1
  then show ?case by simp
next
  case (2 x)
  then show ?case by simp
next
  case (3 x y zs)
  obtain r' rs where rs: "spec_runs (y # zs) = r' # rs"
    by (cases "spec_runs (y # zs)") auto
  have ne: "r' \<noteq> []" using spec_runs_nonempty [of r' "y # zs"] rs by simp
  from hd_hd_spec_runs [of "y # zs"] rs have hd: "hd r' = y" by simp
  show ?case
  proof (cases "spec_adjacent x y")
    case True
    with "3.IH"(1) rs ne show ?thesis
      by (cases rs) auto
  next
    case False
    with "3.IH"(2) rs hd show ?thesis by simp
  qed
qed



section \<open>Page state change: examples\<close>

text \<open>
  A 4 KiB entry for a frame and an operation; a descriptor with the given first entries, the
  rest of the array filled with zero entries; collaborators that map the buffer in full the
  first time, report \<open>len2\<close> the second time, and answer every conversion with \<open>rc\<close>.
\<close>

definition example_entry :: "40 word \<Rightarrow> 4 word \<Rightarrow> psc_entry" where
  "example_entry g opn =
     \<lparr>cur_page = 0, gfn = g, operation = opn, pagesize = 0, entry_reserved = 0\<rparr>"

definition example_desc :: "psc_entry list \<Rightarrow> 16 word \<Rightarrow> 16 word \<Rightarrow> snp_psc_desc" where
  "example_desc es c e =
     \<lparr>hdr = \<lparr>cur_entry = c, end_entry = e, hdr_reserved = 0\<rparr>,
      entries = es @ replicate (VMGEXIT_PSC_MAX_ENTRY - length es) (example_entry 0 0)\<rparr>"

definition example_env :: "64 word \<Rightarrow> int \<Rightarrow> psc_env" where
  "example_env len2 rc = \<lparr>as_map_len = (\<lambda>n len. if n = 0 then len else len2),
                          convert_memory = (\<lambda>cs c. rc)\<rparr>"



section \<open>Page state change: results\<close>






text \<open>
  Claim C9 fails on the code: \<^verbatim>\<open>next_contig_gpa_range\<close> never compares an index with
  \<^verbatim>\<open>VMGEXIT_PSC_MAX_ENTRY\<close>. With \<open>cur_entry = 252\<close> and \<open>end_entry = 253\<close> the
  first iteration processes \<open>entries[252]\<close> and the second one accesses \<open>entries[253]\<close>,
  one past the array.
\<close>

theorem psc_entry_access_out_of_range:
  "next_contig_gpa_range (example_desc [] 252 253) = Inl (EntryOutOfRange 253)
   \<and> res_fault (kvm_handle_vmgexit_psc (example_env 0x7f0 0) (example_desc [] 252 253))
       = Some (EntryOutOfRange 253)"
proof -
  let ?d = "example_desc [] 252 253"
  have c: "psc_cur ?d = 252" "psc_end ?d = 253" "length (entries ?d) = 253"
    by (simp_all add: psc_cur_def psc_end_def example_desc_def VMGEXIT_PSC_MAX_ENTRY_def)
  have lim: "entry_limit 253 (entries ?d) = 253"
    by (simp add: entry_limit_def c VMGEXIT_PSC_MAX_ENTRY_def)
  have seg: "drop 252 (entries ?d) = [example_entry 0 0]"
    by (simp add: example_desc_def VMGEXIT_PSC_MAX_ENTRY_def)
  have nc: "next_contig_gpa_range ?d = Inl (EntryOutOfRange 253)"
    by (simp add: next_contig_gpa_range_eq c lim Let_def seg spec_first_run_def)
  then show ?thesis
    by (simp add: kvm_handle_vmgexit_psc_def Let_def example_env_def GHCB_SHARED_BUF_SIZE_def
        psc_loop.simps [of _ ?d])
qed



section \<open>Extended guest request (certificate fetch)\<close>

text \<open>
  Modelled from the spec: \<^verbatim>\<open>TARGET_PAGE_SIZE\<close> is defined by the target's parameter
  header, which is not part of sev.c; the spec's base page is 4 KiB (and the handler above
  multiplies frame numbers by 0x1000).
\<close>

definition TARGET_PAGE_SIZE :: "64 word" where
  "TARGET_PAGE_SIZE = 4096"

definition SNP_EXT_REQ_ERROR_INVALID_LEN :: "32 word" where
  "SNP_EXT_REQ_ERROR_INVALID_LEN = 1"

definition SNP_EXT_REQ_ERROR_BUSY :: "32 word" where
  "SNP_EXT_REQ_ERROR_BUSY = 2"

definition SNP_EXT_REQ_ERROR_GENERIC :: "32 word" where
  "SNP_EXT_REQ_ERROR_GENERIC = push_bit 31 1"

text \<open>
  What the handler reads from its surroundings: whether the guest is an SNP guest, the
  configured \<^verbatim>\<open>certs_path\<close>, the result of \<^verbatim>\<open>g_file_get_contents\<close> (\<open>None\<close> when
  the read fails) and the length \<^verbatim>\<open>address_space_map\<close> reports as mapped for a guest
  address and a requested length.
\<close>

record ext_req_env =
  ext_snp_enabled :: bool
  ext_certs_path :: "string option"
  ext_file_contents :: "string \<Rightarrow> 8 word list option"
  ext_map_len :: "64 word \<Rightarrow> 64 word \<Rightarrow> 64 word"

text \<open>
  The result: the return value, the in/out parameter \<^verbatim>\<open>*npages\<close>, \<^verbatim>\<open>*vmm_ret\<close>, and
  the \<^verbatim>\<open>memcpy\<close> into the guest buffer if one was made (guest address, source bytes and
  the byte count passed to \<^verbatim>\<open>memcpy\<close>, which is the mapped length, not the file size).
\<close>

record ext_req_result =
  ext_ret :: int
  ext_npages :: "64 word"
  ext_vmm_ret :: "32 word"
  ext_copied :: "(64 word \<times> 8 word list \<times> 64 word) option"

text \<open>
  \<^verbatim>\<open>kvm_handle_vmgexit_ext_req\<close>. \<^verbatim>\<open>sz\<close> and \<^verbatim>\<open>buf_sz\<close> are 64-bit; the
  products and sums wrap as in C.
\<close>

definition kvm_handle_vmgexit_ext_req ::
  "ext_req_env \<Rightarrow> 64 word \<Rightarrow> 64 word \<Rightarrow> ext_req_result"
where
  "kvm_handle_vmgexit_ext_req env gpa npages =
    (if \<not> ext_snp_enabled env
     then \<lparr>ext_ret = 0, ext_npages = npages, ext_vmm_ret = SNP_EXT_REQ_ERROR_GENERIC,
           ext_copied = None\<rparr>
     else
       (case ext_certs_path env of
          None \<Rightarrow> \<lparr>ext_ret = 0, ext_npages = npages, ext_vmm_ret = 0, ext_copied = None\<rparr>
        | Some path \<Rightarrow>
            (case ext_file_contents env path of
               None \<Rightarrow> \<lparr>ext_ret = 0, ext_npages = npages,
                         ext_vmm_ret = SNP_EXT_REQ_ERROR_GENERIC, ext_copied = None\<rparr>
             | Some contents \<Rightarrow>
                 (let sz = (word_of_nat (length contents) :: 64 word);
                      buf_sz = npages * TARGET_PAGE_SIZE
                  in if buf_sz < sz
                     then \<lparr>ext_ret = 0,
                           ext_npages = (sz + TARGET_PAGE_SIZE) div TARGET_PAGE_SIZE,
                           ext_vmm_ret = SNP_EXT_REQ_ERROR_INVALID_LEN, ext_copied = None\<rparr>
                     else
                       (let mapped = ext_map_len env gpa buf_sz
                        in if mapped < sz
                           then \<lparr>ext_ret = 0, ext_npages = npages,
                                 ext_vmm_ret = SNP_EXT_REQ_ERROR_GENERIC, ext_copied = None\<rparr>
                           else \<lparr>ext_ret = 0, ext_npages = npages, ext_vmm_ret = 0,
                                 ext_copied = Some (gpa, contents, mapped)\<rparr>)))))"

text \<open>
  An SNP guest with a certificate bundle of \<open>n\<close> bytes; the guest buffer is mapped in full.
\<close>

definition example_ext_env :: "nat \<Rightarrow> ext_req_env" where
  "example_ext_env n =
     \<lparr>ext_snp_enabled = True, ext_certs_path = Some ''certs.bin'',
      ext_file_contents = (\<lambda>path. Some (replicate n 0)),
      ext_map_len = (\<lambda>gpa len. len)\<rparr>"

text \<open>
  With a buffer shorter than the bundle the handler reports the length error and the page
  count \<open>sz div 4096 + 1\<close>: the number of pages needed when \<open>sz\<close> is not a multiple of
  the page size, one more than needed when it is.
\<close>

lemma kvm_handle_vmgexit_ext_req_short:
  assumes "ext_snp_enabled env" and "ext_certs_path env = Some path"
    and "ext_file_contents env path = Some contents"
    and "length contents < 2 ^ 64 - 4096" and "unat npages * 4096 < length contents"
  shows "ext_vmm_ret (kvm_handle_vmgexit_ext_req env gpa npages) = SNP_EXT_REQ_ERROR_INVALID_LEN"
    and "unat (ext_npages (kvm_handle_vmgexit_ext_req env gpa npages)) = length contents div 4096 + 1"
proof -
  let ?sz = "word_of_nat (length contents) :: 64 word"
  have sz: "unat ?sz = length contents"
    using assms(4) by (simp add: unat_of_nat)
  have buf: "unat (npages * TARGET_PAGE_SIZE) = unat npages * 4096"
    using assms(4,5) by (simp add: TARGET_PAGE_SIZE_def unat_word_ariths)
  have lt: "npages * TARGET_PAGE_SIZE < ?sz"
    using assms(5) by (simp add: word_less_nat_alt sz buf)
  have sum: "unat (?sz + TARGET_PAGE_SIZE) = length contents + 4096"
    using assms(4) by (simp add: TARGET_PAGE_SIZE_def unat_word_ariths sz)
  have "unat ((?sz + TARGET_PAGE_SIZE) div TARGET_PAGE_SIZE) = (length contents + 4096) div 4096"
    by (simp add: unat_div sum) (simp add: TARGET_PAGE_SIZE_def)
  with lt assms(1-3)
  show "ext_vmm_ret (kvm_handle_vmgexit_ext_req env gpa npages) = SNP_EXT_REQ_ERROR_INVALID_LEN"
    and "unat (ext_npages (kvm_handle_vmgexit_ext_req env gpa npages)) = length contents div 4096 + 1"
    by (simp_all add: kvm_handle_vmgexit_ext_req_def Let_def)
qed

text \<open>
  Claim C2 fails on the code for a bundle whose size is a whole number of pages: with a
  bundle of exactly two pages (8192 bytes) and a one-page buffer the handler reports the
  length error and asks for \<open>(8192 + 4096) / 4096 = 3\<close> pages, while a two-page buffer is
  accepted by the same handler.
\<close>

theorem ext_req_two_page_bundle_requests_three:
  "ext_vmm_ret (kvm_handle_vmgexit_ext_req (example_ext_env 8192) 0x1000 1)
     = SNP_EXT_REQ_ERROR_INVALID_LEN
   \<and> ext_npages (kvm_handle_vmgexit_ext_req (example_ext_env 8192) 0x1000 1) = 3
   \<and> ext_vmm_ret (kvm_handle_vmgexit_ext_req (example_ext_env 8192) 0x1000 2) = 0"
  by (simp add: kvm_handle_vmgexit_ext_req_def example_ext_env_def TARGET_PAGE_SIZE_def Let_def)

section \<open>The table of kernel, initrd and command line hashes\<close>

text \<open>
  The packed structures \<^verbatim>\<open>SevHashTableEntry\<close>, \<^verbatim>\<open>SevHashTable\<close> and
  \<^verbatim>\<open>PaddedSevHashTable\<close> are modelled by their bytes. A \<^verbatim>\<open>QemuUUID\<close> is 16 bytes.
\<close>

definition HASH_SIZE :: nat where
  "HASH_SIZE = 32"

definition sizeof_QemuUUID :: nat where
  "sizeof_QemuUUID = 16"

definition sizeof_SevHashTableEntry :: nat where
  "sizeof_SevHashTableEntry = sizeof_QemuUUID + 2 + HASH_SIZE"

definition sizeof_SevHashTable :: nat where
  "sizeof_SevHashTable = sizeof_QemuUUID + 2 + 3 * sizeof_SevHashTableEntry"

text \<open>
  Modelled from the spec: the macro \<^verbatim>\<open>ROUND_UP\<close> is declared outside sev.c; the spec
  has the structure padded to a 16-byte boundary, so \<open>ROUND_UP n d\<close> is the least multiple
  of \<open>d\<close> that is at least \<open>n\<close>.
\<close>

definition ROUND_UP :: "nat \<Rightarrow> nat \<Rightarrow> nat" where
  "ROUND_UP n d = (n + d - 1) div d * d"

definition sizeof_padding :: nat where
  "sizeof_padding = ROUND_UP sizeof_SevHashTable 16 - sizeof_SevHashTable"

definition sizeof_PaddedSevHashTable :: nat where
  "sizeof_PaddedSevHashTable = sizeof_SevHashTable + sizeof_padding"

text \<open>
  Modelled from the spec: the macro \<^verbatim>\<open>UUID_LE\<close> is declared outside sev.c; each entry of
  the table starts with a 16-byte type identifier. The first three fields are stored least
  significant byte first, the eight remaining bytes as given.
\<close>

definition UUID_LE :: "32 word \<Rightarrow> 16 word \<Rightarrow> 16 word \<Rightarrow> 8 word list \<Rightarrow> 8 word list" where
  "UUID_LE time_low time_mid time_hi_and_version rest =
     [ucast time_low, ucast (drop_bit 8 time_low), ucast (drop_bit 16 time_low),
      ucast (drop_bit 24 time_low),
      ucast time_mid, ucast (drop_bit 8 time_mid),
      ucast time_hi_and_version, ucast (drop_bit 8 time_hi_and_version)] @ take 8 rest"

definition sev_hash_table_header_guid :: "8 word list" where
  "sev_hash_table_header_guid =
     UUID_LE 0x9438d606 0x4f22 0x4cc9 [0xb4, 0x79, 0xa7, 0x93, 0xd4, 0x11, 0xfd, 0x21]"

definition sev_kernel_entry_guid :: "8 word list" where
  "sev_kernel_entry_guid =
     UUID_LE 0x4de79437 0xabd2 0x427f [0xb8, 0x35, 0xd5, 0xb1, 0x72, 0xd2, 0x04, 0x5b]"

definition sev_initrd_entry_guid :: "8 word list" where
  "sev_initrd_entry_guid =
     UUID_LE 0x44baf731 0x3a2f 0x4bd7 [0x9a, 0xf1, 0x41, 0xe2, 0x91, 0x69, 0x78, 0x1d]"

definition sev_cmdline_entry_guid :: "8 word list" where
  "sev_cmdline_entry_guid =
     UUID_LE 0x97d02dd8 0xbd20 0x4c94 [0xaa, 0x78, 0xe7, 0x71, 0x4d, 0x36, 0xab, 0x2a]"

text \<open>A 16-bit field in memory (the host is little-endian), and a store into a buffer.\<close>

definition le16 :: "16 word \<Rightarrow> 8 word list" where
  "le16 v = [ucast v, ucast (drop_bit 8 v)]"

definition store :: "8 word list \<Rightarrow> nat \<Rightarrow> 8 word list \<Rightarrow> 8 word list" where
  "store mem off bs = take off mem @ bs @ drop (off + length bs) mem"

text \<open>
  The offsets of the fields of \<^verbatim>\<open>PaddedSevHashTable\<close>: the header identifier and length,
  the three entries \<^verbatim>\<open>cmdline\<close>, \<^verbatim>\<open>initrd\<close>, \<^verbatim>\<open>kernel\<close>, and the padding.
\<close>

definition offsetof_ht_len :: nat where
  "offsetof_ht_len = sizeof_QemuUUID"

definition offsetof_cmdline :: nat where
  "offsetof_cmdline = sizeof_QemuUUID + 2"

definition offsetof_initrd :: nat where
  "offsetof_initrd = offsetof_cmdline + sizeof_SevHashTableEntry"

definition offsetof_kernel :: nat where
  "offsetof_kernel = offsetof_initrd + sizeof_SevHashTableEntry"

definition offsetof_padding :: nat where
  "offsetof_padding = sizeof_SevHashTable"

text \<open>
  The three assignments to one entry: \<^verbatim>\<open>guid\<close>, \<^verbatim>\<open>len = sizeof(entry)\<close> and the
  \<^verbatim>\<open>memcpy\<close> of the digest into \<^verbatim>\<open>hash\<close>.
\<close>

definition store_entry :: "8 word list \<Rightarrow> nat \<Rightarrow> 8 word list \<Rightarrow> 8 word list \<Rightarrow> 8 word list" where
  "store_entry mem off guid digest =
     store (store (store mem off (take sizeof_QemuUUID guid))
              (off + sizeof_QemuUUID) (le16 (word_of_nat sizeof_SevHashTableEntry)))
       (off + sizeof_QemuUUID + 2) (take HASH_SIZE digest)"

text \<open>
  The fields of \<^verbatim>\<open>SevKernelLoaderContext\<close> that are hashed; each size field is the length
  of its buffer.
\<close>

record SevKernelLoaderContext =
  setup_data :: "8 word list"
  kernel_data :: "8 word list"
  initrd_data :: "8 word list"
  cmdline_data :: "8 word list"

text \<open>
  The result of \<^verbatim>\<open>build_kernel_loader_hashes\<close>: \<open>KhBuilt\<close> is the return value
  \<^verbatim>\<open>true\<close> with the bytes of \<^verbatim>\<open>*padded_ht\<close>, \<open>KhFailed\<close> the return value
  \<^verbatim>\<open>false\<close> (a hash could not be computed; nothing has been written), \<open>KhAbort\<close> a
  failed \<^verbatim>\<open>assert(hash_len == HASH_SIZE)\<close>.
\<close>

datatype kh_result = KhBuilt "8 word list" | KhFailed "8 word list" | KhAbort

text \<open>
  \<^verbatim>\<open>build_kernel_loader_hashes\<close>. The SHA-256 of \<^verbatim>\<open>qcrypto_hash_bytes\<close> is a parameter:
  \<open>hash bs\<close> is the digest of \<open>bs\<close>, or \<open>None\<close> when the library reports an error.
  \<^verbatim>\<open>qcrypto_hash_bytesv\<close> over the two buffers hashes their concatenation. \<open>mem\<close> is
  the content of \<^verbatim>\<open>*padded_ht\<close> on entry.
\<close>

definition build_kernel_loader_hashes ::
  "(8 word list \<Rightarrow> 8 word list option) \<Rightarrow> 8 word list \<Rightarrow> SevKernelLoaderContext \<Rightarrow> kh_result"
where
  "build_kernel_loader_hashes hash mem ctx =
     (case hash (cmdline_data ctx) of
        None \<Rightarrow> KhFailed mem
      | Some cmdline_hash \<Rightarrow>
          if length cmdline_hash \<noteq> HASH_SIZE then KhAbort
          else
            (case hash (initrd_data ctx) of
               None \<Rightarrow> KhFailed mem
             | Some initrd_hash \<Rightarrow>
                 if length initrd_hash \<noteq> HASH_SIZE then KhAbort
                 else
                   (case hash (setup_data ctx @ kernel_data ctx) of
                      None \<Rightarrow> KhFailed mem
                    | Some kernel_hash \<Rightarrow>
                        if length kernel_hash \<noteq> HASH_SIZE then KhAbort
                        else
                          (let m1 = store mem 0 (take sizeof_QemuUUID sev_hash_table_header_guid);
                               m2 = store m1 offsetof_ht_len (le16 (word_of_nat sizeof_SevHashTable));
                               m3 = store_entry m2 offsetof_cmdline sev_cmdline_entry_guid cmdline_hash;
                               m4 = store_entry m3 offsetof_initrd sev_initrd_entry_guid initrd_hash;
                               m5 = store_entry m4 offsetof_kernel sev_kernel_entry_guid kernel_hash;
                               m6 = store m5 offsetof_padding (replicate sizeof_padding 0)
                           in KhBuilt m6))))"

text \<open>
  A stand-in for the digest (32 bytes that depend on the length of the input) and a loader
  context with an empty command line (its terminating zero byte), no initrd and a one-byte
  kernel.
\<close>

definition example_hash :: "8 word list \<Rightarrow> 8 word list option" where
  "example_hash bs = Some (replicate 32 (word_of_nat (length bs)))"

definition example_ctx :: SevKernelLoaderContext where
  "example_ctx = \<lparr>setup_data = [], kernel_data = [0x4d], initrd_data = [], cmdline_data = [0]\<rparr>"

lemma sizeof_values:
  "sizeof_SevHashTableEntry = 50" "sizeof_SevHashTable = 168" "sizeof_padding = 8"
  "sizeof_PaddedSevHashTable = 176"
  by (simp_all add: sizeof_SevHashTableEntry_def sizeof_SevHashTable_def sizeof_padding_def
      sizeof_PaddedSevHashTable_def sizeof_QemuUUID_def HASH_SIZE_def ROUND_UP_def)

lemma length_store: "off + length bs \<le> length mem \<Longrightarrow> length (store mem off bs) = length mem"
  by (simp add: store_def)

lemma length_UUID_LE: "length rest = 8 \<Longrightarrow> length (UUID_LE a b c rest) = 16"
  by (simp add: UUID_LE_def)

lemma length_guids:
  "length sev_hash_table_header_guid = 16" "length sev_kernel_entry_guid = 16"
  "length sev_initrd_entry_guid = 16" "length sev_cmdline_entry_guid = 16"
  by (simp_all add: sev_hash_table_header_guid_def sev_kernel_entry_guid_def
      sev_initrd_entry_guid_def sev_cmdline_entry_guid_def length_UUID_LE)

lemma length_store_entry:
  assumes "off + sizeof_SevHashTableEntry \<le> length mem" and "length guid = 16"
    and "length digest = HASH_SIZE"
  shows "length (store_entry mem off guid digest) = length mem"
  using assms
  by (simp add: store_entry_def length_store le16_def sizeof_values sizeof_QemuUUID_def
      HASH_SIZE_def)

lemma store_tail:
  assumes "off + length bs = length mem"
  shows "drop off (store mem off bs) = bs"
  using assms by (simp add: store_def)

lemma build_kernel_loader_hashes_built:
  assumes len: "length mem = sizeof_PaddedSevHashTable"
    and built: "build_kernel_loader_hashes hash mem ctx = KhBuilt out"
  shows "length out = sizeof_PaddedSevHashTable"
    and "drop sizeof_SevHashTable out = replicate sizeof_padding 0"
proof -
  from built obtain c i k where h: "hash (cmdline_data ctx) = Some c" "length c = HASH_SIZE"
      "hash (initrd_data ctx) = Some i" "length i = HASH_SIZE"
      "hash (setup_data ctx @ kernel_data ctx) = Some k" "length k = HASH_SIZE"
    by (auto simp: build_kernel_loader_hashes_def split: option.splits if_splits)
  let ?m1 = "store mem 0 (take sizeof_QemuUUID sev_hash_table_header_guid)"
  let ?m2 = "store ?m1 offsetof_ht_len (le16 (word_of_nat sizeof_SevHashTable))"
  let ?m3 = "store_entry ?m2 offsetof_cmdline sev_cmdline_entry_guid c"
  let ?m4 = "store_entry ?m3 offsetof_initrd sev_initrd_entry_guid i"
  let ?m5 = "store_entry ?m4 offsetof_kernel sev_kernel_entry_guid k"
  let ?m6 = "store ?m5 offsetof_padding (replicate sizeof_padding 0)"
  from built h have out: "out = ?m6"
    by (simp add: build_kernel_loader_hashes_def Let_def)
  have l1: "length ?m1 = 176"
    using len by (simp add: length_store sizeof_values sizeof_QemuUUID_def length_guids)
  have l2: "length ?m2 = 176"
    using l1 by (simp add: length_store le16_def offsetof_ht_len_def sizeof_QemuUUID_def)
  have l3: "length ?m3 = 176"
    using l2 h(2) by (simp add: length_store_entry length_guids offsetof_cmdline_def
        sizeof_values sizeof_QemuUUID_def)
  have l4: "length ?m4 = 176"
    using l3 h(4) by (simp add: length_store_entry length_guids offsetof_initrd_def
        offsetof_cmdline_def sizeof_values sizeof_QemuUUID_def)
  have l5: "length ?m5 = 176"
    using l4 h(6) by (simp add: length_store_entry length_guids offsetof_kernel_def
        offsetof_initrd_def offsetof_cmdline_def sizeof_values sizeof_QemuUUID_def)
  have fit: "offsetof_padding + length (replicate sizeof_padding (0 :: 8 word)) = length ?m5"
    using l5 by (simp add: offsetof_padding_def sizeof_values)
  have "length ?m6 = length ?m5"
    by (rule length_store) (use fit in simp)
  then show "length out = sizeof_PaddedSevHashTable"
    unfolding out l5 by (simp only: sizeof_values)
  show "drop sizeof_SevHashTable out = replicate sizeof_padding 0"
    unfolding out using store_tail [OF fit] by (simp add: offsetof_padding_def)
qed

text \<open>
  Claim C7. Whatever the command line, initrd, setup data and kernel image are, and whatever
  the destination held before, a table that \<^verbatim>\<open>build_kernel_loader_hashes\<close> has built
  occupies \<open>sizeof(PaddedSevHashTable)\<close> bytes, a multiple of 16 (the size of the table
  rounded up to 16), and every byte after the table proper is zero.
\<close>

theorem hash_table_padding_zero:
  assumes "length mem = sizeof_PaddedSevHashTable"
    and "build_kernel_loader_hashes hash mem ctx = KhBuilt out"
  shows "length out = sizeof_PaddedSevHashTable
       \<and> sizeof_PaddedSevHashTable = ROUND_UP sizeof_SevHashTable 16
       \<and> sizeof_PaddedSevHashTable mod 16 = 0
       \<and> (\<forall>i. sizeof_SevHashTable \<le> i \<and> i < sizeof_PaddedSevHashTable \<longrightarrow> out ! i = 0)"
proof -
  note b = build_kernel_loader_hashes_built [OF assms]
  have "out ! i = 0" if "sizeof_SevHashTable \<le> i" "i < sizeof_PaddedSevHashTable" for i
  proof -
    have "out ! i = drop sizeof_SevHashTable out ! (i - sizeof_SevHashTable)"
      using that b(1) by simp
    also have "\<dots> = 0"
      unfolding b(2) using that by (simp add: sizeof_values)
    finally show ?thesis .
  qed
  with b(1) show ?thesis
    by (simp add: sizeof_values ROUND_UP_def)
qed

theorem hash_table_padding_zero_witness:
  "length (replicate 176 (0xff :: 8 word)) = sizeof_PaddedSevHashTable
   \<and> (\<exists>out. build_kernel_loader_hashes example_hash (replicate 176 0xff) example_ctx = KhBuilt out
         \<and> length out = 176 \<and> drop 168 out = [0, 0, 0, 0, 0, 0, 0, 0])"
proof -
  have len: "length (replicate 176 (0xff :: 8 word)) = sizeof_PaddedSevHashTable"
    by (simp add: sizeof_values)
  obtain out where out: "build_kernel_loader_hashes example_hash (replicate 176 0xff) example_ctx
      = KhBuilt out"
    by (simp add: build_kernel_loader_hashes_def example_hash_def example_ctx_def HASH_SIZE_def
        Let_def)
  from hash_table_padding_zero [OF len out]
  have l: "length out = 176" and z: "\<forall>i. 168 \<le> i \<and> i < 176 \<longrightarrow> out ! i = 0"
    by (simp_all add: sizeof_values)
  have "drop 168 out = [0, 0, 0, 0, 0, 0, 0, 0]"
  proof (rule nth_equalityI)
    show "length (drop 168 out) = length [0 :: 8 word, 0, 0, 0, 0, 0, 0, 0]"
      using l by simp
    fix i assume "i < length (drop 168 out)"
    then have i: "i < 8" using l by simp
    then have "drop 168 out ! i = 0" using z l by simp
    moreover have "[0 :: 8 word, 0, 0, 0, 0, 0, 0, 0] ! i = 0"
      using i by (simp add: nth_Cons split: nat.splits)
    ultimately show "drop 168 out ! i = [0 :: 8 word, 0, 0, 0, 0, 0, 0, 0] ! i" by simp
  qed
  with len out l show ?thesis by blast
qed

section \<open>Launch: data\<close>

text \<open>
  Modelled from the spec: \<^verbatim>\<open>SevState\<close> is generated from the QAPI schema, which is not
  part of sev.c. The spec orders the launch states UNINIT, LAUNCH_UPDATE, LAUNCH_SECRET,
  RUNNING; the schema's two migration states, which sev.c never names, follow them.
  \<open>SevState_value\<close> is the enumeration value and \<open>SEV_STATE__MAX\<close> the number of values.
\<close>

datatype SevState =
    SEV_STATE_UNINIT
  | SEV_STATE_LAUNCH_UPDATE
  | SEV_STATE_LAUNCH_SECRET
  | SEV_STATE_RUNNING
  | SEV_STATE_SEND_UPDATE
  | SEV_STATE_RECEIVE_UPDATE

fun SevState_value :: "SevState \<Rightarrow> nat" where
  "SevState_value SEV_STATE_UNINIT = 0"
| "SevState_value SEV_STATE_LAUNCH_UPDATE = 1"
| "SevState_value SEV_STATE_LAUNCH_SECRET = 2"
| "SevState_value SEV_STATE_RUNNING = 3"
| "SevState_value SEV_STATE_SEND_UPDATE = 4"
| "SevState_value SEV_STATE_RECEIVE_UPDATE = 5"

definition SEV_STATE__MAX :: nat where
  "SEV_STATE__MAX = 6"

text \<open>
  The page types of \<^verbatim>\<open>KVM_SEV_SNP_LAUNCH_UPDATE\<close> and the descriptor types of the OVMF
  metadata; sev.c uses them by name only.
\<close>

datatype snp_page_type =
    KVM_SEV_SNP_PAGE_TYPE_NORMAL
  | KVM_SEV_SNP_PAGE_TYPE_VMSA
  | KVM_SEV_SNP_PAGE_TYPE_ZERO
  | KVM_SEV_SNP_PAGE_TYPE_UNMEASURED
  | KVM_SEV_SNP_PAGE_TYPE_SECRETS
  | KVM_SEV_SNP_PAGE_TYPE_CPUID

datatype sev_desc_type =
    SEV_DESC_TYPE_SNP_SEC_MEM
  | SEV_DESC_TYPE_SNP_SECRETS
  | SEV_DESC_TYPE_CPUID
  | SEV_DESC_TYPE_SNP_KERNEL_HASHES
  | SEV_DESC_TYPE_OTHER "32 word"

record OvmfSevMetadataDesc =
  desc_base :: "32 word"
  desc_len :: "32 word"
  desc_type :: sev_desc_type

text \<open>\<^verbatim>\<open>SevLaunchUpdateData\<close>; a null \<^verbatim>\<open>hva\<close> is the address 0.\<close>

record SevLaunchUpdateData =
  lud_gpa :: "64 word"
  lud_hva :: "64 word"
  lud_len :: "64 word"
  lud_type :: snp_page_type

text \<open>
  The commands sev.c issues through \<^verbatim>\<open>sev_ioctl\<close>, with the fields of their payloads
  that sev.c sets.
\<close>

datatype sev_cmd =
    KVM_SEV_INIT
  | KVM_SEV_ES_INIT
  | KVM_SEV_SNP_INIT
  | KVM_SEV_LAUNCH_START "32 word" "32 word" "8 word list option" "8 word list option"
  | KVM_SEV_SNP_LAUNCH_START
  | KVM_SEV_LAUNCH_UPDATE_DATA "64 word" "64 word"
  | KVM_SEV_LAUNCH_UPDATE_VMSA
  | KVM_SEV_LAUNCH_MEASURE bool "32 word"
  | KVM_SEV_LAUNCH_SECRET "8 word list" "8 word list" "64 word"
  | KVM_SEV_LAUNCH_FINISH
  | KVM_SEV_SNP_LAUNCH_UPDATE "64 word" "64 word" "64 word" snp_page_type
  | KVM_SEV_SNP_LAUNCH_FINISH

text \<open>
  What reaches the platform, in order: commands through \<^verbatim>\<open>sev_ioctl\<close>, the status
  query through \<^verbatim>\<open>sev_platform_ioctl\<close>, and calls of \<^verbatim>\<open>kvm_convert_memory\<close>.
\<close>

datatype sev_event =
    SevIoctl sev_cmd
  | PlatformStatus
  | ConvertMemory "64 word" "64 word" bool

text \<open>
  The answer to a command: the return value, the firmware error, and the fields the kernel
  writes back into the payload (the measurement length and bytes, the guest handle, and the
  bytes the platform writes into guest memory).
\<close>

record ioctl_reply =
  io_ret :: int
  io_error :: int
  io_len :: "32 word"
  io_data :: "8 word list"
  io_handle :: "32 word"
  io_guest_writes :: "(64 word \<times> 8 word) list"

text \<open>
  The answer to \<^verbatim>\<open>SEV_PLATFORM_STATUS\<close>.
\<close>

record platform_status_reply =
  ps_ret :: int
  ps_error :: int
  ps_build :: "8 word"
  ps_api_major :: "8 word"
  ps_api_minor :: "8 word"
  ps_flags :: "32 word"

text \<open>
  The collaborators of the launch code. The platform and \<^verbatim>\<open>kvm_convert_memory\<close> answer
  as functions of what has reached the platform so far, so they may answer differently at
  every call. The other fields are the results of \<^verbatim>\<open>ram_block_discard_disable(true)\<close>,
  of the host's CPUID (C-bit position), of \<^verbatim>\<open>open\<close> on the SEV device, of
  \<^verbatim>\<open>kvm_kernel_irqchip_allowed\<close>, of reading and decoding a base64 file, of
  \<^verbatim>\<open>pc_system_get_ovmf_sev_metadata_ptr\<close> (the descriptors, or \<open>None\<close> for a null
  pointer), of \<^verbatim>\<open>gpa2hva\<close> (0 for a null pointer), of \<^verbatim>\<open>KVM_GET_CPUID2\<close> asked with
  a given entry count (return value and entry count), the CPUID table built from it, whether
  \<^verbatim>\<open>migrate_add_blocker\<close> fails, and of \<^verbatim>\<open>g_base64_decode\<close>.
\<close>

record sev_env =
  env_ioctl :: "sev_event list \<Rightarrow> sev_cmd \<Rightarrow> ioctl_reply"
  env_convert_memory :: "sev_event list \<Rightarrow> 64 word \<Rightarrow> 64 word \<Rightarrow> bool \<Rightarrow> int"
  env_platform_status :: platform_status_reply
  env_discard_disable :: int
  env_host_cbitpos :: "32 word"
  env_open :: int
  env_irqchip_allowed :: bool
  env_read_file_base64 :: "string \<Rightarrow> 8 word list option"
  env_metadata :: "OvmfSevMetadataDesc list option"
  env_gpa2hva :: "64 word \<Rightarrow> 64 word \<Rightarrow> 64 word"
  env_get_cpuid2 :: "nat \<Rightarrow> int \<times> nat"
  env_cpuid_table :: "8 word list"
  env_add_blocker_fails :: bool
  env_base64_decode :: "string \<Rightarrow> 8 word list option"

text \<open>
  The configuration of the guest object, set through properties before launch: whether it
  is an SNP guest object, the policy, the C-bit position and the reduced physical bits, the
  session and certificate files, and for SNP the kernel hashes staged by
  \<^verbatim>\<open>sev_add_kernel_loader_hashes\<close> (offset in the page and table).
\<close>

record sev_config =
  cfg_snp :: bool
  cfg_policy :: "32 word"
  cfg_cbitpos :: "32 word"
  cfg_reduced_phys_bits :: "32 word"
  cfg_session_file :: "string option"
  cfg_dh_cert_file :: "string option"
  cfg_kernel_hashes :: bool
  cfg_kernel_hashes_data :: "(32 word \<times> 8 word list) option"

text \<open>
  The mutable state: the fields of \<^verbatim>\<open>SevCommonState\<close> and \<^verbatim>\<open>SevGuestState\<close> that
  the launch code writes, the global queue \<^verbatim>\<open>launch_update\<close>, the registrations made by
  \<^verbatim>\<open>sev_kvm_init\<close>, guest memory (by host address) as far as the launch code and the
  platform write it, and two logs: every event that reached the platform (\<open>w_trace\<close>)
  and every value written to \<^verbatim>\<open>sev_common->state\<close> (\<open>w_state_hist\<close>).
\<close>

record sev_world =
  w_state :: SevState
  w_state_hist :: "SevState list"
  w_sev_fd :: int
  w_build_id :: "8 word"
  w_api_major :: "8 word"
  w_api_minor :: "8 word"
  w_handle :: "32 word"
  w_measurement :: "8 word list option"
  w_launch_update :: "SevLaunchUpdateData list"
  w_trace :: "sev_event list"
  w_guest_mem :: "64 word \<Rightarrow> 8 word"
  w_discard_disabled :: bool
  w_require_guest_memfd :: bool
  w_ram_notifier :: bool
  w_machine_done_notifier :: bool
  w_vm_change_handler :: bool
  w_cgs_ready :: bool
  w_mig_blocker :: bool

text \<open>
  A function that can end the process (\<^verbatim>\<open>exit(1)\<close>, a failed \<^verbatim>\<open>assert\<close>, or
  \<^verbatim>\<open>error_fatal\<close>) returns \<open>Fatal\<close> with the state at that point; \<open>Diverge\<close>
  stands for a loop that never ends.
\<close>

datatype 'a run = Fatal sev_world | Diverge sev_world | Return 'a sev_world

text \<open>
  Modelled from the spec: these constants are declared in headers outside sev.c, which
  names them only; no statement below depends on the values given here, except through the
  examples.
\<close>

definition SEV_POLICY_ES :: "32 word" where
  "SEV_POLICY_ES = 0x4"


definition TARGET_PAGE_BITS :: nat where
  "TARGET_PAGE_BITS = 12"

definition E2BIG :: int where
  "E2BIG = 7"

text \<open>
  \<^verbatim>\<open>SnpCpuidInfo\<close> is packed: a 16-byte header and 64 entries of 48 bytes.
\<close>

definition SNP_CPUID_FUNCTION_MAXCOUNT :: nat where
  "SNP_CPUID_FUNCTION_MAXCOUNT = 64"

definition sizeof_SnpCpuidInfo :: nat where
  "sizeof_SnpCpuidInfo = 16 + SNP_CPUID_FUNCTION_MAXCOUNT * 48"

text \<open>
  The errors \<^verbatim>\<open>sev_encrypt_flash\<close> and \<^verbatim>\<open>sev_inject_launch_secret\<close> set through
  \<^verbatim>\<open>errp\<close>.
\<close>

datatype sev_error =
    SevNotEnabled
  | EncryptFlashFailed
  | NotInCorrectState SevState
  | DecodeHeaderFailed
  | DecodeDataFailed
  | GuestAddressFailed
  | InjectSecretFailed int int


section \<open>Launch: the code\<close>

definition sev_snp_enabled :: "sev_config \<Rightarrow> bool" where
  "sev_snp_enabled cfg = cfg_snp cfg"

definition sev_es_enabled :: "sev_config \<Rightarrow> bool" where
  "sev_es_enabled cfg = (sev_snp_enabled cfg \<or> cfg_policy cfg AND SEV_POLICY_ES \<noteq> 0)"

definition sev_ioctl :: "sev_env \<Rightarrow> sev_world \<Rightarrow> sev_cmd \<Rightarrow> ioctl_reply \<times> sev_world" where
  "sev_ioctl env w cmd =
     (let rep = env_ioctl env (w_trace w) cmd
      in (rep, w\<lparr>w_trace := w_trace w @ [SevIoctl cmd],
                 w_guest_mem := fold (\<lambda>(a, b) m. m(a := b)) (io_guest_writes rep) (w_guest_mem w)\<rparr>))"

definition sev_platform_ioctl :: "sev_env \<Rightarrow> sev_world \<Rightarrow> platform_status_reply \<times> sev_world" where
  "sev_platform_ioctl env w = (env_platform_status env, w\<lparr>w_trace := w_trace w @ [PlatformStatus]\<rparr>)"

definition kvm_convert_memory ::
  "sev_env \<Rightarrow> sev_world \<Rightarrow> 64 word \<Rightarrow> 64 word \<Rightarrow> bool \<Rightarrow> int \<times> sev_world"
where
  "kvm_convert_memory env w start sz to_private =
     (env_convert_memory env (w_trace w) start sz to_private,
      w\<lparr>w_trace := w_trace w @ [ConvertMemory start sz to_private]\<rparr>)"

definition sev_check_state :: "sev_world \<Rightarrow> SevState \<Rightarrow> bool" where
  "sev_check_state w st = (if w_state w = st then True else False)"

text \<open>
  \<^verbatim>\<open>sev_set_guest_state\<close> asserts \<^verbatim>\<open>new_state < SEV_STATE__MAX\<close>, which holds for
  every value of the enumeration (\<open>SevState_value_less_MAX\<close>).
\<close>

definition sev_set_guest_state :: "sev_world \<Rightarrow> SevState \<Rightarrow> sev_world" where
  "sev_set_guest_state w new_state =
     w\<lparr>w_state := new_state, w_state_hist := w_state_hist w @ [new_state]\<rparr>"

lemma SevState_value_less_MAX: "SevState_value s < SEV_STATE__MAX"
  by (cases s) (simp_all add: SEV_STATE__MAX_def)

subsection \<open>Launch start\<close>




subsection \<open>Measurement\<close>

definition sev_launch_update_vmsa :: "sev_env \<Rightarrow> sev_world \<Rightarrow> int \<times> sev_world" where
  "sev_launch_update_vmsa env w =
     (let (rep, w1) = sev_ioctl env w KVM_SEV_LAUNCH_UPDATE_VMSA in (io_ret rep, w1))"

definition sev_launch_get_measure :: "sev_env \<Rightarrow> sev_config \<Rightarrow> sev_world \<Rightarrow> unit run" where
  "sev_launch_get_measure env cfg w =
     (if \<not> sev_check_state w SEV_STATE_LAUNCH_UPDATE then Return () w
      else
        (let (ret, w1) = (if sev_es_enabled cfg then sev_launch_update_vmsa env w else (0, w))
         in if ret \<noteq> 0 then Fatal w1
            else
              (let (rep1, w2) = sev_ioctl env w1 (KVM_SEV_LAUNCH_MEASURE False 0)
               in if io_len rep1 = 0 then Return () w2
                  else
                    (let (rep2, w3) = sev_ioctl env w2 (KVM_SEV_LAUNCH_MEASURE True (io_len rep1))
                     in if io_ret rep2 \<noteq> 0 then Return () w3
                        else Return ()
                               ((sev_set_guest_state w3 SEV_STATE_LAUNCH_SECRET)
                                  \<lparr>w_measurement :=
                                     Some (take (unat (io_len rep2)) (io_data rep2))\<rparr>)))))"

subsection \<open>Launch finish\<close>

definition sev_launch_finish :: "sev_env \<Rightarrow> sev_world \<Rightarrow> unit run" where
  "sev_launch_finish env w =
     (let (rep, w1) = sev_ioctl env w KVM_SEV_LAUNCH_FINISH
      in if io_ret rep \<noteq> 0 then Fatal w1
         else
           (let w2 = sev_set_guest_state w1 SEV_STATE_RUNNING
            in if env_add_blocker_fails env then Fatal w2
               else Return () (w2\<lparr>w_mig_blocker := True\<rparr>)))"

definition snp_launch_update_data ::
  "sev_world \<Rightarrow> 64 word \<Rightarrow> 64 word \<Rightarrow> 32 word \<Rightarrow> snp_page_type \<Rightarrow> int \<times> sev_world"
where
  "snp_launch_update_data w gpa hva len type =
     (0, w\<lparr>w_launch_update := w_launch_update w @
             [\<lparr>lud_gpa = gpa, lud_hva = hva, lud_len = ucast len, lud_type = type\<rparr>]\<rparr>)"

definition snp_update_cmd :: "SevLaunchUpdateData \<Rightarrow> sev_cmd" where
  "snp_update_cmd data =
     KVM_SEV_SNP_LAUNCH_UPDATE (lud_hva data) (drop_bit TARGET_PAGE_BITS (lud_gpa data))
       (lud_len data) (lud_type data)"

definition sev_snp_launch_update ::
  "sev_env \<Rightarrow> sev_world \<Rightarrow> SevLaunchUpdateData \<Rightarrow> int \<times> sev_world"
where
  "sev_snp_launch_update env w data =
     (if lud_hva data = 0 \<or> lud_len data = 0 then (1, w)
      else
        (let (rep, w1) = sev_ioctl env w (snp_update_cmd data)
         in if io_ret rep \<noteq> 0 then (io_ret rep, w1)
            else kvm_convert_memory env w1 (lud_gpa data) (lud_len data) True))"

subsection \<open>SNP: metadata pages and the update queue\<close>

text \<open>
  A \<^verbatim>\<open>memcpy\<close> or \<^verbatim>\<open>memset\<close> into guest memory at a host address.
\<close>

definition write_bytes :: "(64 word \<Rightarrow> 8 word) \<Rightarrow> 64 word \<Rightarrow> 8 word list \<Rightarrow> (64 word \<Rightarrow> 8 word)" where
  "write_bytes m a bs = fold (\<lambda>(i, b) m'. m'(a + word_of_nat i := b)) (enumerate 0 bs) m"

text \<open>
  The \<^verbatim>\<open>do ... while (ret == -E2BIG)\<close> loop of \<^verbatim>\<open>snp_launch_update_cpuid\<close>: it asks
  KVM with a growing entry count until the answer is not \<^verbatim>\<open>-E2BIG\<close>. \<open>None\<close> is the
  loop that never ends.
\<close>

partial_function (option) cpuid_query_loop :: "(nat \<Rightarrow> int \<times> nat) \<Rightarrow> nat \<Rightarrow> (int \<times> nat) option" where
  "cpuid_query_loop q i =
     (case q (i + 1) of (ret, nent) \<Rightarrow>
        if ret = - E2BIG then cpuid_query_loop q (i + 1) else Some (ret, nent))"

text \<open>
  \<^verbatim>\<open>snp_launch_update_cpuid\<close>. The table that \<^verbatim>\<open>sev_snp_cpuid_info_fill\<close> builds is
  taken from the environment (\<open>env_cpuid_table\<close>); the fill fails when KVM reports more
  than \<open>SNP_CPUID_FUNCTION_MAXCOUNT\<close> entries.
\<close>

definition snp_launch_update_cpuid ::
  "sev_env \<Rightarrow> sev_world \<Rightarrow> 32 word \<Rightarrow> 64 word \<Rightarrow> 32 word \<Rightarrow> int run"
where
  "snp_launch_update_cpuid env w cpuid_addr hva cpuid_len =
     (if \<not> sizeof_SnpCpuidInfo \<le> unat cpuid_len then Fatal w
      else
        (case cpuid_query_loop (env_get_cpuid2 env) 0 of
           None \<Rightarrow> Diverge w
         | Some (ret, nent) \<Rightarrow>
             if ret \<noteq> 0 then Return 1 w
             else if nent > SNP_CPUID_FUNCTION_MAXCOUNT then Return 1 w
             else
               (let w1 = w\<lparr>w_guest_mem := write_bytes (w_guest_mem w) hva (env_cpuid_table env)\<rparr>
                in case snp_launch_update_data w1 (ucast cpuid_addr) hva cpuid_len
                          KVM_SEV_SNP_PAGE_TYPE_CPUID of
                     (r, w2) \<Rightarrow> Return r w2)))"

definition snp_launch_update_kernel_hashes ::
  "sev_config \<Rightarrow> sev_world \<Rightarrow> 32 word \<Rightarrow> 64 word \<Rightarrow> 32 word \<Rightarrow> int run"
where
  "snp_launch_update_kernel_hashes cfg w addr hva len =
     (if cfg_kernel_hashes cfg then
        (case cfg_kernel_hashes_data cfg of
           None \<Rightarrow> Fatal w
         | Some (kernel_hashes_offset, kernel_hashes_data) \<Rightarrow>
             if \<not> unat kernel_hashes_offset + sizeof_PaddedSevHashTable \<le> unat len then Fatal w
             else
               (let m1 = write_bytes (w_guest_mem w) hva (replicate (unat len) 0);
                    m2 = write_bytes m1 (hva + ucast kernel_hashes_offset)
                           (take sizeof_PaddedSevHashTable kernel_hashes_data)
                in case snp_launch_update_data (w\<lparr>w_guest_mem := m2\<rparr>) (ucast addr) hva len
                          KVM_SEV_SNP_PAGE_TYPE_NORMAL of
                     (r, w1) \<Rightarrow> Return r w1))
      else
        (case snp_launch_update_data w (ucast addr) hva len KVM_SEV_SNP_PAGE_TYPE_ZERO of
           (r, w1) \<Rightarrow> Return r w1))"

fun snp_metadata_desc_to_page_type :: "sev_desc_type \<Rightarrow> snp_page_type option" where
  "snp_metadata_desc_to_page_type SEV_DESC_TYPE_SNP_SEC_MEM = Some KVM_SEV_SNP_PAGE_TYPE_ZERO"
| "snp_metadata_desc_to_page_type SEV_DESC_TYPE_SNP_SECRETS = Some KVM_SEV_SNP_PAGE_TYPE_SECRETS"
| "snp_metadata_desc_to_page_type SEV_DESC_TYPE_CPUID = Some KVM_SEV_SNP_PAGE_TYPE_CPUID"
| "snp_metadata_desc_to_page_type SEV_DESC_TYPE_SNP_KERNEL_HASHES = Some KVM_SEV_SNP_PAGE_TYPE_NORMAL"
| "snp_metadata_desc_to_page_type (SEV_DESC_TYPE_OTHER t) = None"

text \<open>The loop of \<^verbatim>\<open>snp_populate_metadata_pages\<close> over the descriptors.\<close>

fun snp_populate_metadata_pages ::
  "sev_env \<Rightarrow> sev_config \<Rightarrow> sev_world \<Rightarrow> OvmfSevMetadataDesc list \<Rightarrow> unit run"
where
  "snp_populate_metadata_pages env cfg w [] = Return () w"
| "snp_populate_metadata_pages env cfg w (desc # descs) =
     (case snp_metadata_desc_to_page_type (desc_type desc) of
        None \<Rightarrow> Fatal w
      | Some type \<Rightarrow>
          (let hva = env_gpa2hva env (ucast (desc_base desc)) (ucast (desc_len desc))
           in if hva = 0 then Fatal w
              else
                (case (if type = KVM_SEV_SNP_PAGE_TYPE_CPUID
                       then snp_launch_update_cpuid env w (desc_base desc) hva (desc_len desc)
                       else if desc_type desc = SEV_DESC_TYPE_SNP_KERNEL_HASHES
                       then snp_launch_update_kernel_hashes cfg w (desc_base desc) hva (desc_len desc)
                       else (case snp_launch_update_data w (ucast (desc_base desc)) hva
                                    (desc_len desc) type of (r, w1) \<Rightarrow> Return r w1)) of
                   Fatal w1 \<Rightarrow> Fatal w1
                 | Diverge w1 \<Rightarrow> Diverge w1
                 | Return ret w1 \<Rightarrow>
                     if ret \<noteq> 0 then Fatal w1
                     else snp_populate_metadata_pages env cfg w1 descs)))"

text \<open>
  The \<^verbatim>\<open>QTAILQ_FOREACH\<close> loop of \<^verbatim>\<open>sev_snp_launch_finish\<close> over the queue
  \<^verbatim>\<open>launch_update\<close>, from its head.
\<close>

fun snp_launch_update_all :: "sev_env \<Rightarrow> sev_world \<Rightarrow> SevLaunchUpdateData list \<Rightarrow> unit run" where
  "snp_launch_update_all env w [] = Return () w"
| "snp_launch_update_all env w (data # rest) =
     (case sev_snp_launch_update env w data of
        (ret, w1) \<Rightarrow> if ret \<noteq> 0 then Fatal w1 else snp_launch_update_all env w1 rest)"

definition sev_snp_launch_finish :: "sev_env \<Rightarrow> sev_config \<Rightarrow> sev_world \<Rightarrow> unit run" where
  "sev_snp_launch_finish env cfg w =
     (case env_metadata env of
        None \<Rightarrow> Fatal w
      | Some metadata \<Rightarrow>
          (case snp_populate_metadata_pages env cfg w metadata of
             Fatal w1 \<Rightarrow> Fatal w1
           | Diverge w1 \<Rightarrow> Diverge w1
           | Return u w1 \<Rightarrow>
               (case snp_launch_update_all env w1 (w_launch_update w1) of
                  Fatal w2 \<Rightarrow> Fatal w2
                | Diverge w2 \<Rightarrow> Diverge w2
                | Return u2 w2 \<Rightarrow>
                    (let (rep, w3) = sev_ioctl env w2 KVM_SEV_SNP_LAUNCH_FINISH
                     in if io_ret rep \<noteq> 0 then Fatal w3
                        else
                          (let w4 = sev_set_guest_state w3 SEV_STATE_RUNNING
                           in if env_add_blocker_fails env then Fatal w4
                              else Return () (w4\<lparr>w_mig_blocker := True\<rparr>))))))"

definition sev_vm_state_change :: "sev_env \<Rightarrow> sev_config \<Rightarrow> sev_world \<Rightarrow> bool \<Rightarrow> unit run" where
  "sev_vm_state_change env cfg w running =
     (if running then
        (if \<not> sev_check_state w SEV_STATE_RUNNING then
           (if sev_snp_enabled cfg then sev_snp_launch_finish env cfg w
            else sev_launch_finish env w)
         else Return () w)
      else Return () w)"

subsection \<open>Initialisation\<close>



subsection \<open>Encrypting firmware contents, injecting a secret\<close>



definition sev_inject_launch_secret ::
  "sev_env \<Rightarrow> sev_world option \<Rightarrow> string \<Rightarrow> string \<Rightarrow> 64 word \<Rightarrow>
   int \<times> sev_error option \<times> sev_world option"
where
  "sev_inject_launch_secret env sev_common packet_hdr secret gpa =
     (case sev_common of
        None \<Rightarrow> (1, Some SevNotEnabled, None)
      | Some w \<Rightarrow>
          if \<not> sev_check_state w SEV_STATE_LAUNCH_SECRET
          then (1, Some (NotInCorrectState (w_state w)), Some w)
          else
            (case env_base64_decode env packet_hdr of
               None \<Rightarrow> (1, Some DecodeHeaderFailed, Some w)
             | Some hdr_bytes \<Rightarrow>
                 if length hdr_bytes = 0 then (1, Some DecodeHeaderFailed, Some w)
                 else
                   (case env_base64_decode env secret of
                      None \<Rightarrow> (1, Some DecodeDataFailed, Some w)
                    | Some data \<Rightarrow>
                        if length data = 0 then (1, Some DecodeDataFailed, Some w)
                        else
                          (let hva = env_gpa2hva env gpa (word_of_nat (length data))
                           in if hva = 0 then (1, Some GuestAddressFailed, Some w)
                              else
                                (let (rep, w1) = sev_ioctl env w (KVM_SEV_LAUNCH_SECRET hdr_bytes data hva)
                                 in if io_ret rep \<noteq> 0
                                    then (io_ret rep,
                                          Some (InjectSecretFailed (io_ret rep) (io_error rep)),
                                          Some w1)
                                    else (0, None, Some w1))))))"

subsection \<open>The launch flow\<close>




section \<open>Launch: what is observed\<close>

text \<open>
  The state a run ends in, and how it ends.
\<close>

fun run_world :: "'a run \<Rightarrow> sev_world" where
  "run_world (Fatal w) = w"
| "run_world (Diverge w) = w"
| "run_world (Return v w) = w"

fun is_Fatal :: "'a run \<Rightarrow> bool" where
  "is_Fatal (Fatal w) = True"
| "is_Fatal (Diverge w) = False"
| "is_Fatal (Return v w) = False"

fun is_Return :: "'a run \<Rightarrow> bool" where
  "is_Return (Fatal w) = False"
| "is_Return (Diverge w) = False"
| "is_Return (Return v w) = True"

text \<open>
  The SNP update commands among the events that reached the platform, in order.
\<close>

fun snp_update_of :: "sev_event \<Rightarrow> sev_cmd list" where
  "snp_update_of (SevIoctl (KVM_SEV_SNP_LAUNCH_UPDATE a g l t)) = [KVM_SEV_SNP_LAUNCH_UPDATE a g l t]"
| "snp_update_of ev = []"

definition snp_updates_sent :: "sev_event list \<Rightarrow> sev_cmd list" where
  "snp_updates_sent tr = concat (map snp_update_of tr)"

text \<open>
  What enqueueing may change: entries are added at the tail of the queue; nothing reaches the
  platform and the launch state is not written.
\<close>

definition queue_extends :: "sev_world \<Rightarrow> sev_world \<Rightarrow> bool" where
  "queue_extends w w' \<longleftrightarrow>
     prefix (w_launch_update w) (w_launch_update w') \<and> w_trace w' = w_trace w
     \<and> w_state w' = w_state w \<and> w_state_hist w' = w_state_hist w
     \<and> w_vm_change_handler w' = w_vm_change_handler w
     \<and> w_machine_done_notifier w' = w_machine_done_notifier w"

text \<open>
  The launch state, its history and the registrations are the same in two states.
\<close>

definition st_same :: "sev_world \<Rightarrow> sev_world \<Rightarrow> bool" where
  "st_same w w' \<longleftrightarrow>
     w_state w' = w_state w \<and> w_state_hist w' = w_state_hist w
     \<and> w_vm_change_handler w' = w_vm_change_handler w
     \<and> w_machine_done_notifier w' = w_machine_done_notifier w"



section \<open>Launch: examples\<close>

text \<open>
  A platform answer with a return value and a measurement length; collaborators that let
  the initialisation of a guest with C-bit position 51 succeed and answer commands by the
  given function; a guest configuration; a state with nothing registered or queued; a queue
  of five pages and a platform that rejects the update of the third.
\<close>

definition example_reply :: "int \<Rightarrow> 32 word \<Rightarrow> ioctl_reply" where
  "example_reply r l =
     \<lparr>io_ret = r, io_error = 0, io_len = l, io_data = replicate (unat l) 0xAB, io_handle = 1,
      io_guest_writes = []\<rparr>"

definition example_sev_env :: "(sev_event list \<Rightarrow> sev_cmd \<Rightarrow> ioctl_reply) \<Rightarrow> sev_env" where
  "example_sev_env io =
     \<lparr>env_ioctl = io,
      env_convert_memory = (\<lambda>tr start sz to_private. 0),
      env_platform_status = \<lparr>ps_ret = 0, ps_error = 0, ps_build = 1, ps_api_major = 1,
                               ps_api_minor = 51, ps_flags = 0x0100\<rparr>,
      env_discard_disable = 0,
      env_host_cbitpos = 51,
      env_open = 3,
      env_irqchip_allowed = True,
      env_read_file_base64 = (\<lambda>f. Some []),
      env_metadata = Some [],
      env_gpa2hva = (\<lambda>gpa len. gpa + 0x7f0000000000),
      env_get_cpuid2 = (\<lambda>nent. (0, nent)),
      env_cpuid_table = [],
      env_add_blocker_fails = False,
      env_base64_decode = (\<lambda>s. Some (map (\<lambda>c. of_char c) s))\<rparr>"

definition example_sev_config :: "bool \<Rightarrow> 32 word \<Rightarrow> sev_config" where
  "example_sev_config snp policy =
     \<lparr>cfg_snp = snp, cfg_policy = policy, cfg_cbitpos = 51, cfg_reduced_phys_bits = 1,
      cfg_session_file = None, cfg_dh_cert_file = None, cfg_kernel_hashes = False,
      cfg_kernel_hashes_data = None\<rparr>"

definition example_sev_world :: "SevState \<Rightarrow> sev_world" where
  "example_sev_world st =
     \<lparr>w_state = st, w_state_hist = [], w_sev_fd = 0, w_build_id = 0, w_api_major = 0,
      w_api_minor = 0, w_handle = 0, w_measurement = None, w_launch_update = [], w_trace = [],
      w_guest_mem = (\<lambda>a. 0), w_discard_disabled = False, w_require_guest_memfd = False,
      w_ram_notifier = False, w_machine_done_notifier = False, w_vm_change_handler = False,
      w_cgs_ready = False, w_mig_blocker = False\<rparr>"

definition example_update :: "64 word \<Rightarrow> SevLaunchUpdateData" where
  "example_update n =
     \<lparr>lud_gpa = n * 0x1000, lud_hva = 0x7f0000000000 + n * 0x1000, lud_len = 0x1000,
      lud_type = KVM_SEV_SNP_PAGE_TYPE_NORMAL\<rparr>"

definition example_queue_world :: sev_world where
  "example_queue_world =
     (example_sev_world SEV_STATE_LAUNCH_UPDATE)
       \<lparr>w_launch_update := [example_update 1, example_update 2, example_update 3,
                            example_update 4, example_update 5]\<rparr>"

definition example_third_fails :: sev_env where
  "example_third_fails =
     example_sev_env (\<lambda>tr cmd. example_reply
        (if cmd = snp_update_cmd (example_update 3) then - 1 else 0) 0)"

section \<open>Launch: lemmas\<close>

lemma sev_ioctl_simps [simp]:
  "fst (sev_ioctl env w cmd) = env_ioctl env (w_trace w) cmd"
  "w_trace (snd (sev_ioctl env w cmd)) = w_trace w @ [SevIoctl cmd]"
  "w_state (snd (sev_ioctl env w cmd)) = w_state w"
  "w_state_hist (snd (sev_ioctl env w cmd)) = w_state_hist w"
  "w_measurement (snd (sev_ioctl env w cmd)) = w_measurement w"
  "w_launch_update (snd (sev_ioctl env w cmd)) = w_launch_update w"
  "w_vm_change_handler (snd (sev_ioctl env w cmd)) = w_vm_change_handler w"
  "w_machine_done_notifier (snd (sev_ioctl env w cmd)) = w_machine_done_notifier w"
  by (simp_all add: sev_ioctl_def Let_def)

lemma snp_updates_sent_append [simp]:
  "snp_updates_sent (xs @ ys) = snp_updates_sent xs @ snp_updates_sent ys"
  by (simp add: snp_updates_sent_def)

lemma snp_updates_sent_simps [simp]:
  "snp_updates_sent [] = []"
  "snp_updates_sent (ev # tr) = snp_update_of ev @ snp_updates_sent tr"
  "snp_update_of (SevIoctl (snp_update_cmd d)) = [snp_update_cmd d]"
  by (simp_all add: snp_updates_sent_def snp_update_cmd_def)

lemma sev_snp_launch_update_sent:
  "snp_updates_sent (w_trace (snd (sev_snp_launch_update env w d))) =
     snp_updates_sent (w_trace w) @
       (if lud_hva d = 0 \<or> lud_len d = 0 then [] else [snp_update_cmd d])"
  by (simp add: sev_snp_launch_update_def Let_def split_beta kvm_convert_memory_def)

lemma sev_snp_launch_update_invalid:
  "lud_hva d = 0 \<or> lud_len d = 0 \<Longrightarrow> fst (sev_snp_launch_update env w d) \<noteq> 0"
  by (simp add: sev_snp_launch_update_def)

lemma snp_launch_update_all_append:
  "snp_launch_update_all env w (xs @ ys) =
     (case snp_launch_update_all env w xs of
        Fatal w1 \<Rightarrow> Fatal w1
      | Diverge w1 \<Rightarrow> Diverge w1
      | Return u w1 \<Rightarrow> snp_launch_update_all env w1 ys)"
  by (induction xs arbitrary: w) (auto split: prod.splits)

lemma snp_launch_update_all_sent:
  "\<exists>k \<le> length q.
     snp_updates_sent (w_trace (run_world (snp_launch_update_all env w q))) =
       snp_updates_sent (w_trace w) @ map snp_update_cmd (take k q)
     \<and> (is_Return (snp_launch_update_all env w q) \<longrightarrow> k = length q)
     \<and> (is_Return (snp_launch_update_all env w q) \<or> is_Fatal (snp_launch_update_all env w q))"
proof (induction q arbitrary: w)
  case Nil
  then show ?case by simp
next
  case (Cons d rest)
  obtain ret w1 where u: "sev_snp_launch_update env w d = (ret, w1)"
    by (cases "sev_snp_launch_update env w d") auto
  have sent: "snp_updates_sent (w_trace w1) = snp_updates_sent (w_trace w) @
       (if lud_hva d = 0 \<or> lud_len d = 0 then [] else [snp_update_cmd d])"
    using sev_snp_launch_update_sent [of env w d] u by simp
  show ?case
  proof (cases "ret = 0")
    case False
    show ?thesis
    proof (cases "lud_hva d = 0 \<or> lud_len d = 0")
      case True
      with False u sent show ?thesis
        by (intro exI [of _ 0]) simp
    next
      case valid: False
      with False u sent show ?thesis
        by (intro exI [of _ 1]) simp
    qed
  next
    case True
    then have valid: "\<not> (lud_hva d = 0 \<or> lud_len d = 0)"
      using sev_snp_launch_update_invalid [of d env w] u by auto
    from Cons.IH [of w1] obtain k where k: "k \<le> length rest"
      "snp_updates_sent (w_trace (run_world (snp_launch_update_all env w1 rest))) =
         snp_updates_sent (w_trace w1) @ map snp_update_cmd (take k rest)"
      "is_Return (snp_launch_update_all env w1 rest) \<longrightarrow> k = length rest"
      "is_Return (snp_launch_update_all env w1 rest) \<or> is_Fatal (snp_launch_update_all env w1 rest)"
      by blast
    with True u sent valid show ?thesis
      by (intro exI [of _ "Suc k"]) simp
  qed
qed

lemma queue_extends_refl [simp]: "queue_extends w w"
  by (simp add: queue_extends_def)

lemma queue_extends_trans: "queue_extends a b \<Longrightarrow> queue_extends b c \<Longrightarrow> queue_extends a c"
  by (auto simp: queue_extends_def)

lemma snp_launch_update_data_extends:
  "queue_extends w (snd (snp_launch_update_data w gpa hva len type))"
  "fst (snp_launch_update_data w gpa hva len type) = 0"
  "w_launch_update (snd (snp_launch_update_data w gpa hva len type)) =
     w_launch_update w @ [\<lparr>lud_gpa = gpa, lud_hva = hva, lud_len = ucast len, lud_type = type\<rparr>]"
  by (simp_all add: snp_launch_update_data_def queue_extends_def)

lemma queue_extends_guest_mem [simp]:
  "queue_extends w (w'\<lparr>w_guest_mem := m\<rparr>) = queue_extends w w'"
  "queue_extends (w\<lparr>w_guest_mem := m\<rparr>) w' = queue_extends w w'"
  by (simp_all add: queue_extends_def)

lemma snp_launch_update_cpuid_extends:
  "queue_extends w (run_world (snp_launch_update_cpuid env w a hva len))"
  using snp_launch_update_data_extends(1)
    [of "w\<lparr>w_guest_mem := write_bytes (w_guest_mem w) hva (env_cpuid_table env)\<rparr>"]
  by (auto simp: snp_launch_update_cpuid_def Let_def split_beta split: option.splits)

lemma snp_launch_update_kernel_hashes_extends:
  "queue_extends w (run_world (snp_launch_update_kernel_hashes cfg w a hva len))"
proof -
  have "queue_extends w (snd (snp_launch_update_data (w\<lparr>w_guest_mem := m\<rparr>) g hva len t))" for m g t
    using snp_launch_update_data_extends(1) [of "w\<lparr>w_guest_mem := m\<rparr>" g hva len t] by simp
  then show ?thesis
    using snp_launch_update_data_extends(1) [of w]
    by (auto simp: snp_launch_update_kernel_hashes_def Let_def split_beta split: option.splits)
qed

lemma snp_populate_metadata_pages_extends:
  "queue_extends w (run_world (snp_populate_metadata_pages env cfg w md))"
proof (induction md arbitrary: w)
  case Nil
  then show ?case by simp
next
  case (Cons desc descs)
  show ?case
  proof (cases "snp_metadata_desc_to_page_type (desc_type desc)")
    case None
    then show ?thesis by simp
  next
    case (Some type)
    let ?hva = "env_gpa2hva env (ucast (desc_base desc)) (ucast (desc_len desc))"
    let ?r = "if type = KVM_SEV_SNP_PAGE_TYPE_CPUID
              then snp_launch_update_cpuid env w (desc_base desc) ?hva (desc_len desc)
              else if desc_type desc = SEV_DESC_TYPE_SNP_KERNEL_HASHES
              then snp_launch_update_kernel_hashes cfg w (desc_base desc) ?hva (desc_len desc)
              else (case snp_launch_update_data w (ucast (desc_base desc)) ?hva
                           (desc_len desc) type of (r, w1) \<Rightarrow> Return r w1)"
    have r: "queue_extends w (run_world ?r)"
      using snp_launch_update_cpuid_extends [of w env "desc_base desc" ?hva "desc_len desc"]
        snp_launch_update_kernel_hashes_extends [of w cfg "desc_base desc" ?hva "desc_len desc"]
        snp_launch_update_data_extends(1) [of w "ucast (desc_base desc)" ?hva "desc_len desc" type]
      by (simp add: split_beta)
    show ?thesis
    proof (cases "?hva = 0")
      case True
      with Some show ?thesis by simp
    next
      case False
      have unfold: "snp_populate_metadata_pages env cfg w (desc # descs) =
          (case ?r of Fatal w1 \<Rightarrow> Fatal w1 | Diverge w1 \<Rightarrow> Diverge w1
           | Return ret w1 \<Rightarrow> if ret \<noteq> 0 then Fatal w1
                               else snp_populate_metadata_pages env cfg w1 descs)"
        using Some False by (simp add: Let_def)
      show ?thesis
      proof (cases ?r)
        case (Fatal w1)
        with r show ?thesis unfolding unfold by simp
      next
        case (Diverge w1)
        with r show ?thesis unfolding unfold by simp
      next
        case (Return ret w1)
        with r have "queue_extends w w1" by simp
        with Return Cons.IH [of w1] show ?thesis
          unfolding unfold by (auto intro: queue_extends_trans)
      qed
    qed
  qed
qed

lemma sev_snp_launch_finish_unfold:
  assumes "env_metadata env = Some md"
    and "snp_populate_metadata_pages env cfg w md = Return () w1"
  shows "sev_snp_launch_finish env cfg w =
    (case snp_launch_update_all env w1 (w_launch_update w1) of
       Fatal w2 \<Rightarrow> Fatal w2
     | Diverge w2 \<Rightarrow> Diverge w2
     | Return u2 w2 \<Rightarrow>
         (let (rep, w3) = sev_ioctl env w2 KVM_SEV_SNP_LAUNCH_FINISH
          in if io_ret rep \<noteq> 0 then Fatal w3
             else
               (let w4 = sev_set_guest_state w3 SEV_STATE_RUNNING
                in if env_add_blocker_fails env then Fatal w4
                   else Return () (w4\<lparr>w_mig_blocker := True\<rparr>))))"
  using assms by (simp add: sev_snp_launch_finish_def)

lemma st_same_refl [simp]: "st_same w w"
  by (simp add: st_same_def)



















lemma sev_platform_ioctl_state [simp]:
  "w_state (snd (sev_platform_ioctl env w)) = w_state w"
  "w_state_hist (snd (sev_platform_ioctl env w)) = w_state_hist w"
  by (simp_all add: sev_platform_ioctl_def)





section \<open>Launch: results\<close>

text \<open>
  Claim C3. With the metadata pages populated, SNP launch finish walks the queue
  \<^verbatim>\<open>launch_update\<close> once from its head: entries queued before are still queued, in their
  order, in front of the ones the metadata population appended; the update commands that
  reach the platform are those of the first \<open>k\<close> entries of the queue, in queue order, and
  of all of them when the function returns; the first entry whose update fails ends the
  process there, whatever follows it in the queue; and after a finish that returned, the
  state is RUNNING and a further run request changes nothing.
\<close>

theorem snp_launch_finish_drains_fifo:
  assumes "env_metadata env = Some md"
    and "snp_populate_metadata_pages env cfg w md = Return () w1"
  shows
    "let q = w_launch_update w1; res = sev_snp_launch_finish env cfg w
     in prefix (w_launch_update w) q
        \<and> (\<exists>k \<le> length q.
              snp_updates_sent (w_trace (run_world res)) =
                snp_updates_sent (w_trace w) @ map snp_update_cmd (take k q)
              \<and> (is_Return res \<longrightarrow> k = length q))
        \<and> (\<forall>xs d ys w2. q = xs @ d # ys
              \<and> snp_launch_update_all env w1 xs = Return () w2
              \<and> fst (sev_snp_launch_update env w2 d) \<noteq> 0
              \<longrightarrow> res = Fatal (snd (sev_snp_launch_update env w2 d)))
        \<and> (is_Return res \<longrightarrow>
              w_state (run_world res) = SEV_STATE_RUNNING
              \<and> sev_vm_state_change env cfg (run_world res) True = Return () (run_world res))"
proof -
  let ?q = "w_launch_update w1"
  let ?res = "sev_snp_launch_finish env cfg w"
  let ?loop = "snp_launch_update_all env w1 ?q"
  note unfold = sev_snp_launch_finish_unfold [OF assms]
  have ext: "queue_extends w w1"
    using snp_populate_metadata_pages_extends [of w env cfg md] assms(2) by simp
  then have 1: "prefix (w_launch_update w) ?q" and tr: "w_trace w1 = w_trace w"
    by (simp_all add: queue_extends_def)
  from snp_launch_update_all_sent [of ?q env w1]
  obtain k where k: "k \<le> length ?q"
    "snp_updates_sent (w_trace (run_world ?loop)) =
       snp_updates_sent (w_trace w1) @ map snp_update_cmd (take k ?q)"
    "is_Return ?loop \<longrightarrow> k = length ?q"
    "is_Return ?loop \<or> is_Fatal ?loop"
    by blast
  have sent: "snp_updates_sent (w_trace (run_world ?res)) = snp_updates_sent (w_trace (run_world ?loop))"
    and ret: "is_Return ?res \<longrightarrow> is_Return ?loop"
    and st: "is_Return ?res \<longrightarrow> w_state (run_world ?res) = SEV_STATE_RUNNING"
    unfolding unfold
    by (cases ?loop; simp add: Let_def split_beta sev_set_guest_state_def)+
  have 2: "\<exists>k \<le> length ?q.
              snp_updates_sent (w_trace (run_world ?res)) =
                snp_updates_sent (w_trace w) @ map snp_update_cmd (take k ?q)
              \<and> (is_Return ?res \<longrightarrow> k = length ?q)"
    using k ret unfolding sent tr by blast
  have 3: "?res = Fatal (snd (sev_snp_launch_update env w2 d))"
    if "?q = xs @ d # ys" "snp_launch_update_all env w1 xs = Return () w2"
      "fst (sev_snp_launch_update env w2 d) \<noteq> 0" for xs d ys w2
  proof -
    have "?loop = Fatal (snd (sev_snp_launch_update env w2 d))"
      using that by (simp add: snp_launch_update_all_append split_beta)
    then show ?thesis unfolding unfold by simp
  qed
  have 4: "sev_vm_state_change env cfg (run_world ?res) True = Return () (run_world ?res)"
    if "is_Return ?res"
    using st that by (simp add: sev_vm_state_change_def sev_check_state_def)
  show ?thesis
    unfolding Let_def using 1 2 3 4 st by blast
qed

text \<open>
  Five queued entries, the platform rejects the update of the third: the process ends there;
  the updates of the first three entries have reached the platform, in order, those of the
  fourth and fifth have not.
\<close>

theorem snp_launch_finish_drains_fifo_witness:
  "sev_snp_launch_finish example_third_fails (example_sev_config True 0x30000) example_queue_world
     = Fatal (example_queue_world
         \<lparr>w_trace := [SevIoctl (snp_update_cmd (example_update 1)), ConvertMemory 0x1000 0x1000 True,
                      SevIoctl (snp_update_cmd (example_update 2)), ConvertMemory 0x2000 0x1000 True,
                      SevIoctl (snp_update_cmd (example_update 3))]\<rparr>)
   \<and> snp_updates_sent (w_trace (run_world
         (sev_snp_launch_finish example_third_fails (example_sev_config True 0x30000)
            example_queue_world)))
       = [snp_update_cmd (example_update 1), snp_update_cmd (example_update 2),
          snp_update_cmd (example_update 3)]"
proof -
  let ?env = example_third_fails
  let ?cfg = "example_sev_config True 0x30000"
  let ?w = example_queue_world
  let ?w2 = "?w\<lparr>w_trace := [SevIoctl (snp_update_cmd (example_update 1)), ConvertMemory 0x1000 0x1000 True,
                      SevIoctl (snp_update_cmd (example_update 2)), ConvertMemory 0x2000 0x1000 True]\<rparr>"
  let ?w3 = "?w\<lparr>w_trace := [SevIoctl (snp_update_cmd (example_update 1)), ConvertMemory 0x1000 0x1000 True,
                      SevIoctl (snp_update_cmd (example_update 2)), ConvertMemory 0x2000 0x1000 True,
                      SevIoctl (snp_update_cmd (example_update 3))]\<rparr>"
  have md: "env_metadata ?env = Some []"
    by (simp add: example_third_fails_def example_sev_env_def)
  have pop: "snp_populate_metadata_pages ?env ?cfg ?w [] = Return () ?w"
    by simp
  have q: "w_launch_update ?w = [example_update 1, example_update 2] @ example_update 3 #
             [example_update 4, example_update 5]"
    by (simp add: example_queue_world_def)
  have ne: "snp_update_cmd (example_update 1) \<noteq> snp_update_cmd (example_update 3)"
    "snp_update_cmd (example_update 2) \<noteq> snp_update_cmd (example_update 3)"
    by (simp_all add: snp_update_cmd_def example_update_def)
  have valid: "lud_hva (example_update n) = 0x7f0000000000 + n * 0x1000"
    "lud_len (example_update n) = 0x1000" "lud_gpa (example_update n) = n * 0x1000" for n
    by (simp_all add: example_update_def)
  have io: "env_ioctl ?env tr cmd =
      example_reply (if cmd = snp_update_cmd (example_update 3) then - 1 else 0) 0"
    "env_convert_memory ?env tr a b c = 0" for tr cmd a b c
    by (simp_all add: example_third_fails_def example_sev_env_def)
  have tr0: "w_trace ?w = []" "w_guest_mem ?w = (\<lambda>a. 0)"
    by (simp_all add: example_queue_world_def example_sev_world_def)
  have xs: "snp_launch_update_all ?env ?w [example_update 1, example_update 2] = Return () ?w2"
    by (simp add: sev_snp_launch_update_def sev_ioctl_def kvm_convert_memory_def Let_def
        valid io ne tr0 example_reply_def)
  have d: "sev_snp_launch_update ?env ?w2 (example_update 3) = (- 1, ?w3)"
    by (simp add: sev_snp_launch_update_def sev_ioctl_def Let_def valid io tr0 example_reply_def)
  from snp_launch_finish_drains_fifo [OF md pop] q xs d
  have res: "sev_snp_launch_finish ?env ?cfg ?w = Fatal ?w3"
    unfolding Let_def by (metis fst_conv snd_conv zero_neq_neg_one)
  show ?thesis
    unfolding res by simp
qed

text \<open>
  Claim C4. With the launch state different from LAUNCH_SECRET, secret injection returns 1
  with the state-mismatch error and the state it was given: no command has been added to
  the trace of the platform, and the launch context and guest memory are as before.
\<close>

theorem inject_secret_wrong_state_rejected:
  assumes "w_state w \<noteq> SEV_STATE_LAUNCH_SECRET"
  shows "sev_inject_launch_secret env (Some w) packet_hdr secret gpa
           = (1, Some (NotInCorrectState (w_state w)), Some w)"
  using assms by (simp add: sev_inject_launch_secret_def sev_check_state_def)

theorem inject_secret_wrong_state_rejected_witness:
  "sev_inject_launch_secret (example_sev_env (\<lambda>tr cmd. example_reply 0 0))
      (Some (example_sev_world SEV_STATE_LAUNCH_UPDATE)) ''aGVhZGVy'' ''c2VjcmV0'' 0x1000
     = (1, Some (NotInCorrectState SEV_STATE_LAUNCH_UPDATE),
        Some (example_sev_world SEV_STATE_LAUNCH_UPDATE))"
  using inject_secret_wrong_state_rejected
    [of "example_sev_world SEV_STATE_LAUNCH_UPDATE" "example_sev_env (\<lambda>tr cmd. example_reply 0 0)"
        "''aGVhZGVy''" "''c2VjcmV0''" "0x1000"]
  by (simp add: example_sev_world_def)



text \<open>
  Claim C6 as stated fails: only a failed VMSA update ends the process. In the first run the
  length query fails and reports length 0, in the second the query reports 48 bytes and the
  retrieval fails; both times \<^verbatim>\<open>sev_launch_get_measure\<close> returns, with the state still
  LAUNCH_UPDATE.
\<close>

theorem measure_failure_not_fatal_counterexample:
  "sev_launch_get_measure (example_sev_env (\<lambda>tr cmd. example_reply (- 1) 0))
      (example_sev_config False 1) (example_sev_world SEV_STATE_LAUNCH_UPDATE)
     = Return () ((example_sev_world SEV_STATE_LAUNCH_UPDATE)
                    \<lparr>w_trace := [SevIoctl (KVM_SEV_LAUNCH_MEASURE False 0)]\<rparr>)
   \<and> sev_launch_get_measure (example_sev_env (\<lambda>tr cmd. example_reply (- 1) 48))
      (example_sev_config False 1) (example_sev_world SEV_STATE_LAUNCH_UPDATE)
     = Return () ((example_sev_world SEV_STATE_LAUNCH_UPDATE)
                    \<lparr>w_trace := [SevIoctl (KVM_SEV_LAUNCH_MEASURE False 0),
                                 SevIoctl (KVM_SEV_LAUNCH_MEASURE True 48)]\<rparr>)"
  by (simp add: sev_launch_get_measure_def sev_check_state_def sev_es_enabled_def
      sev_snp_enabled_def example_sev_config_def SEV_POLICY_ES_def sev_ioctl_def
      example_sev_env_def example_reply_def example_sev_world_def Let_def)

text \<open>
  Claim C6, amended. In the state LAUNCH_UPDATE the measurement step ends the process exactly
  when the guest is an ES guest and the VMSA update fails. A length query that reports length
  0 and a failed retrieval make it return with the state still LAUNCH_UPDATE and the stored
  measurement untouched; only when both succeed does the state become LAUNCH_SECRET. No
  command is issued twice: what the step adds to the trace is a prefix of the VMSA update
  (ES guests only), the length query and the retrieval with the reported length.
\<close>

theorem measure_step_failures:
  assumes "w_state w = SEV_STATE_LAUNCH_UPDATE"
  shows
    "let res = sev_launch_get_measure env cfg w;
         vmsa = (if sev_es_enabled cfg then [SevIoctl KVM_SEV_LAUNCH_UPDATE_VMSA] else []);
         vmsa_failed = (sev_es_enabled cfg \<and>
                        io_ret (env_ioctl env (w_trace w) KVM_SEV_LAUNCH_UPDATE_VMSA) \<noteq> 0);
         rep1 = env_ioctl env (w_trace w @ vmsa) (KVM_SEV_LAUNCH_MEASURE False 0);
         rep2 = env_ioctl env (w_trace w @ vmsa @ [SevIoctl (KVM_SEV_LAUNCH_MEASURE False 0)])
                  (KVM_SEV_LAUNCH_MEASURE True (io_len rep1));
         measured = (\<not> vmsa_failed \<and> io_len rep1 \<noteq> 0 \<and> io_ret rep2 = 0)
     in (is_Fatal res \<longleftrightarrow> vmsa_failed)
        \<and> (\<not> vmsa_failed \<longrightarrow> is_Return res)
        \<and> (measured \<longrightarrow> w_state (run_world res) = SEV_STATE_LAUNCH_SECRET
                          \<and> w_measurement (run_world res)
                              = Some (take (unat (io_len rep2)) (io_data rep2)))
        \<and> (\<not> measured \<longrightarrow> w_state (run_world res) = SEV_STATE_LAUNCH_UPDATE
                            \<and> w_measurement (run_world res) = w_measurement w)
        \<and> (\<exists>new. w_trace (run_world res) = w_trace w @ new
               \<and> prefix new (vmsa @ [SevIoctl (KVM_SEV_LAUNCH_MEASURE False 0),
                                       SevIoctl (KVM_SEV_LAUNCH_MEASURE True (io_len rep1))]))"
proof (cases "sev_es_enabled cfg")
  case True
  then show ?thesis
    using assms
    by (auto simp: sev_launch_get_measure_def sev_check_state_def sev_launch_update_vmsa_def
        Let_def split_beta sev_set_guest_state_def prefix_def)
next
  case False
  then show ?thesis
    using assms
    by (auto simp: sev_launch_get_measure_def sev_check_state_def
        Let_def split_beta sev_set_guest_state_def prefix_def)
qed

theorem measure_step_failures_witness:
  "w_state (example_sev_world SEV_STATE_LAUNCH_UPDATE) = SEV_STATE_LAUNCH_UPDATE
   \<and> is_Fatal (sev_launch_get_measure (example_sev_env (\<lambda>tr cmd. example_reply (- 1) 48))
        (example_sev_config False 5) (example_sev_world SEV_STATE_LAUNCH_UPDATE))
   \<and> w_state (run_world (sev_launch_get_measure (example_sev_env (\<lambda>tr cmd. example_reply 0 48))
        (example_sev_config False 5) (example_sev_world SEV_STATE_LAUNCH_UPDATE)))
       = SEV_STATE_LAUNCH_SECRET
   \<and> w_state (run_world (sev_launch_get_measure (example_sev_env (\<lambda>tr cmd. example_reply (- 1) 0))
        (example_sev_config False 1) (example_sev_world SEV_STATE_LAUNCH_UPDATE)))
       = SEV_STATE_LAUNCH_UPDATE"
proof -
  have st: "w_state (example_sev_world SEV_STATE_LAUNCH_UPDATE) = SEV_STATE_LAUNCH_UPDATE"
    by (simp add: example_sev_world_def)
  have es: "sev_es_enabled (example_sev_config False 5)" "\<not> sev_es_enabled (example_sev_config False 1)"
    by (simp_all add: sev_es_enabled_def sev_snp_enabled_def example_sev_config_def SEV_POLICY_ES_def)
  have io: "env_ioctl (example_sev_env f) = f" for f
    by (simp add: example_sev_env_def)
  have rep: "io_ret (example_reply r l) = r" "io_len (example_reply r l) = l" for r l
    by (simp_all add: example_reply_def)
  from measure_step_failures [OF st, of "example_sev_env (\<lambda>tr cmd. example_reply (- 1) 48)"
      "example_sev_config False 5"]
  have 1: "is_Fatal (sev_launch_get_measure (example_sev_env (\<lambda>tr cmd. example_reply (- 1) 48))
        (example_sev_config False 5) (example_sev_world SEV_STATE_LAUNCH_UPDATE))"
    by (simp add: Let_def es io rep)
  from measure_step_failures [OF st, of "example_sev_env (\<lambda>tr cmd. example_reply 0 48)"
      "example_sev_config False 5"]
  have 2: "w_state (run_world (sev_launch_get_measure (example_sev_env (\<lambda>tr cmd. example_reply 0 48))
        (example_sev_config False 5) (example_sev_world SEV_STATE_LAUNCH_UPDATE)))
       = SEV_STATE_LAUNCH_SECRET"
    by (simp add: Let_def es io rep)
  from measure_step_failures [OF st, of "example_sev_env (\<lambda>tr cmd. example_reply (- 1) 0)"
      "example_sev_config False 1"]
  have 3: "w_state (run_world (sev_launch_get_measure (example_sev_env (\<lambda>tr cmd. example_reply (- 1) 0))
        (example_sev_config False 1) (example_sev_world SEV_STATE_LAUNCH_UPDATE)))
       = SEV_STATE_LAUNCH_UPDATE"
    by (simp add: Let_def es io rep)
  from st 1 2 3 show ?thesis by simp
qed

end
